theory Spec2Isabelle
  imports Complex_Main "HOL-Library.Sublist"
begin

section \<open>Python string primitives\<close>

text \<open>
  Python \<open>str\<close> values are modelled as \<^typ>\<open>string\<close> over the ASCII range: case mapping
  is defined on the letters A-Z and a-z and leaves every other character alone, which is
  what \<open>str.lower\<close>, \<open>str.upper\<close> and \<open>str.title\<close> do on ASCII text.
\<close>

definition uppers :: string where
  "uppers = ''ABCDEFGHIJKLMNOPQRSTUVWXYZ''"

definition lowers :: string where
  "lowers = ''abcdefghijklmnopqrstuvwxyz''"

definition is_upper :: "char \<Rightarrow> bool" where
  "is_upper c = (c \<in> set uppers)"

definition is_lower :: "char \<Rightarrow> bool" where
  "is_lower c = (c \<in> set lowers)"

definition lower_char :: "char \<Rightarrow> char" where
  "lower_char c = (case map_of (zip uppers lowers) c of Some d \<Rightarrow> d | None \<Rightarrow> c)"

definition upper_char :: "char \<Rightarrow> char" where
  "upper_char c = (case map_of (zip lowers uppers) c of Some d \<Rightarrow> d | None \<Rightarrow> c)"

text \<open>\<open>s.lower()\<close>\<close>

definition str_lower :: "string \<Rightarrow> string" where
  "str_lower s = map lower_char s"

text \<open>
  \<open>s.title()\<close>: a letter that follows a letter is lowercased, a letter that follows
  anything else (or starts the string) is uppercased; \<open>prev\<close> is CPython's
  \<open>previous_is_cased\<close>.
\<close>

fun title_from :: "bool \<Rightarrow> string \<Rightarrow> string" where
  "title_from prev [] = []"
| "title_from prev (c # cs) =
     (if is_lower c then (if prev then c else upper_char c) # title_from True cs
      else if is_upper c then (if prev then lower_char c else c) # title_from True cs
      else c # title_from False cs)"

definition str_title :: "string \<Rightarrow> string" where
  "str_title s = title_from False s"

text \<open>\<open>a in b\<close> on strings: \<open>a\<close> occurs in \<open>b\<close> as a contiguous block.\<close>

fun str_in :: "string \<Rightarrow> string \<Rightarrow> bool" where
  "str_in xs [] = (xs = [])"
| "str_in xs (y # ys) = (prefix xs (y # ys) \<or> str_in xs ys)"

text \<open>\<open>sep.join(xs)\<close>\<close>

fun str_join :: "string \<Rightarrow> string list \<Rightarrow> string" where
  "str_join sep [] = []"
| "str_join sep [x] = x"
| "str_join sep (x # y # ys) = x @ sep @ str_join sep (y # ys)"

text \<open>\<open>s.replace(a, b)\<close> for one-character \<open>a\<close> and \<open>b\<close>.\<close>

definition str_replace :: "char \<Rightarrow> char \<Rightarrow> string \<Rightarrow> string" where
  "str_replace a b s = map (\<lambda>c. if c = a then b else c) s"

text \<open>
  \<open>s.split()\<close> with no argument: the maximal runs of non-whitespace characters, in
  order; \<open>cur\<close> is the run being read.
\<close>

definition is_space :: "char \<Rightarrow> bool" where
  "is_space c = (c \<in> set [CHR '' '', CHR 0x09, CHR 0x0A, CHR 0x0B, CHR 0x0C, CHR 0x0D,
                            CHR 0x1C, CHR 0x1D, CHR 0x1E, CHR 0x1F])"

fun split_from :: "string \<Rightarrow> string \<Rightarrow> string list" where
  "split_from cur [] = (if cur = [] then [] else [cur])"
| "split_from cur (c # cs) =
     (if is_space c then (if cur = [] then split_from [] cs else cur # split_from [] cs)
      else split_from (cur @ [c]) cs)"

definition str_split :: "string \<Rightarrow> string list" where
  "str_split s = split_from [] s"

section \<open>Subspecialty hint extractor (\<open>services/advanced_matcher.py\<close>)\<close>

text \<open>
  The class attributes of \<open>AdvancedMatchingFeatures\<close>. A Python \<open>dict\<close> literal keeps
  its insertion order, so each level of the table is an association list.
\<close>

definition SUBSPECIALTY_KEYWORDS :: "(string \<times> (string \<times> string list) list) list" where
  "SUBSPECIALTY_KEYWORDS = [
    (''Cardiology'', [
       (''interventional'', [''angioplasty'', ''stent'', ''catheterization'', ''coronary'', ''heart attack'', ''myocardial infarction'', ''acute coronary'']),
       (''electrophysiology'', [''arrhythmia'', ''palpitations'', ''irregular heartbeat'', ''atrial fibrillation'', ''afib'', ''flutter'', ''tachycardia'', ''bradycardia'', ''heart rhythm'']),
       (''heart_failure'', [''shortness of breath'', ''swelling'', ''edema'', ''fatigue'', ''weak heart'', ''heart failure'', ''cardiomyopathy'']),
       (''congenital'', [''birth defect'', ''congenital'', ''hole in heart'', ''murmur''])]),
    (''Gastroenterology'', [
       (''liver'', [''jaundice'', ''hepatitis'', ''cirrhosis'', ''liver'', ''yellow skin'', ''ascites'', ''liver disease'']),
       (''inflammatory_bowel'', [''crohn'', ''colitis'', ''inflammatory bowel'', ''ibd'', ''bloody stool'', ''chronic diarrhea'']),
       (''pancreas'', [''pancreatitis'', ''pancreas'', ''diabetes'']),
       (''acid_reflux'', [''gerd'', ''acid reflux'', ''heartburn'', ''esophagus''])]),
    (''Neurology'', [
       (''stroke'', [''stroke'', ''paralysis'', ''facial drooping'', ''slurred speech'', ''sudden weakness'', ''tia'', ''transient ischemic'']),
       (''epilepsy'', [''seizure'', ''epilepsy'', ''convulsion'', ''fits'']),
       (''migraine'', [''migraine'', ''severe headache'', ''visual aura'']),
       (''movement_disorders'', [''parkinson'', ''tremor'', ''movement disorder'', ''dystonia'']),
       (''dementia'', [''alzheimer'', ''dementia'', ''memory loss'', ''cognitive decline''])]),
    (''Orthopedics'', [
       (''sports'', [''sports injury'', ''ligament tear'', ''acl'', ''mcl'', ''meniscus'', ''athletic injury'']),
       (''spine'', [''back pain'', ''spine'', ''disc'', ''herniated'', ''sciatica'', ''spinal'', ''vertebra'']),
       (''joint_replacement'', [''knee replacement'', ''hip replacement'', ''arthritis'', ''joint pain'', ''osteoarthritis'']),
       (''trauma'', [''fracture'', ''broken bone'', ''trauma'', ''injury''])]),
    (''Pulmonology'', [
       (''asthma'', [''asthma'', ''wheezing'', ''breathing difficulty'', ''inhaler'']),
       (''copd'', [''copd'', ''emphysema'', ''chronic bronchitis'', ''smoker'']),
       (''sleep'', [''sleep apnea'', ''snoring'', ''cpap'']),
       (''interstitial'', [''fibrosis'', ''interstitial lung'', ''pulmonary fibrosis''])]),
    (''Psychiatry'', [
       (''depression'', [''depression'', ''low mood'', ''sadness'', ''hopelessness'', ''loss of interest'', ''suicidal'']),
       (''anxiety'', [''anxiety'', ''panic'', ''worry'', ''nervousness'', ''ocd'']),
       (''bipolar'', [''bipolar'', ''manic'', ''mood swings'']),
       (''psychosis'', [''schizophrenia'', ''psychosis'', ''hallucination'', ''delusion''])]),
    (''Dermatology'', [
       (''acne'', [''acne'', ''pimples'', ''blackheads'', ''breakout'']),
       (''psoriasis'', [''psoriasis'', ''scaly skin'', ''plaque'']),
       (''skin_cancer'', [''mole'', ''melanoma'', ''skin cancer'', ''changing spot'']),
       (''eczema'', [''eczema'', ''atopic dermatitis'', ''itchy rash''])]),
    (''ENT'', [
       (''hearing'', [''hearing loss'', ''deaf'', ''tinnitus'', ''ringing in ear'']),
       (''sinus'', [''sinusitis'', ''sinus'', ''nasal congestion'']),
       (''throat'', [''sore throat'', ''tonsillitis'', ''hoarseness'', ''voice problem''])])]"

definition EMERGENCY_KEYWORDS :: "string list" where
  "EMERGENCY_KEYWORDS = [''chest pain'', ''heart attack'', ''stroke'', ''seizure'', ''severe bleeding'', ''difficulty breathing'', ''unconscious'', ''severe pain'', ''suicide'', ''overdose'', ''trauma'']"

text \<open>
  \<open>sum(1 for keyword in keywords if keyword.lower() in text_to_analyze)\<close>
\<close>

definition match_count :: "string list \<Rightarrow> string \<Rightarrow> nat" where
  "match_count keywords text_to_analyze =
     length (filter (\<lambda>keyword. str_in (str_lower keyword) text_to_analyze) keywords)"

text \<open>
  \<open>max(items, key=lambda x: x[1])\<close> on a non-empty sequence: the running maximum is
  replaced only by an item with a strictly greater key, so the first maximal item wins.
\<close>

fun max_items :: "(string \<times> nat) \<Rightarrow> (string \<times> nat) list \<Rightarrow> (string \<times> nat)" where
  "max_items best [] = best"
| "max_items best (x # xs) = max_items (if snd best < snd x then x else best) xs"

text \<open>The dictionary \<open>subspecialty_matches\<close> built by the loop, in insertion order.\<close>

definition subspecialty_matches :: "(string \<times> string list) list \<Rightarrow> string \<Rightarrow> (string \<times> nat) list" where
  "subspecialty_matches subs text_to_analyze =
     filter (\<lambda>(subspec, n). 0 < n)
       (map (\<lambda>(subspec, keywords). (subspec, match_count keywords text_to_analyze)) subs)"

definition text_to_analyze :: "string \<Rightarrow> string list \<Rightarrow> string" where
  "text_to_analyze symptoms conditions = str_lower (symptoms @ '' '' @ str_join '' '' conditions)"

definition hint_label :: "string \<Rightarrow> string" where
  "hint_label subspec = str_title (str_replace (CHR ''_'') (CHR '' '') subspec)"

definition extract_subspecialty_hints :: "string \<Rightarrow> string \<Rightarrow> string list \<Rightarrow> string option" where
  "extract_subspecialty_hints symptoms specialty conditions =
     (case map_of SUBSPECIALTY_KEYWORDS (str_title specialty) of
        None \<Rightarrow> None
      | Some subs \<Rightarrow>
          (case subspecialty_matches subs (text_to_analyze symptoms conditions) of
             [] \<Rightarrow> None
           | m # ms \<Rightarrow> Some (hint_label (fst (max_items m ms)))))"

text \<open>\<open>calculate_condition_severity\<close>\<close>

definition has_emergency :: "string \<Rightarrow> bool" where
  "has_emergency symptoms =
     list_ex (\<lambda>keyword. str_in keyword (str_lower symptoms)) EMERGENCY_KEYWORDS"

definition calculate_condition_severity :: "string \<Rightarrow> int \<Rightarrow> string" where
  "calculate_condition_severity symptoms urgency_score =
     (if has_emergency symptoms \<or> urgency_score \<ge> 90 then ''critical''
      else if urgency_score \<ge> 70 then ''high''
      else if urgency_score \<ge> 40 then ''moderate''
      else ''low'')"

text \<open>A label is title-cased: no underscore, every word one capital followed by lowercase letters.\<close>

definition title_cased :: "string \<Rightarrow> bool" where
  "title_cased h = (CHR ''_'' \<notin> set h \<and>
     list_all (\<lambda>w. case w of [] \<Rightarrow> False | c # cs \<Rightarrow> is_upper c \<and> list_all is_lower cs)
       (str_split h))"


section \<open>Matching engine (\<open>services/doctor_matcher.py\<close>)\<close>

text \<open>
  A doctor is a JSON object: every key the matcher reads may be absent, which
  \<open>doctor.get(key, default)\<close> turns into the default. The three \<open>match_*\<close> keys are the
  annotations \<open>find_best_doctor\<close> writes; \<open>other_keys\<close> stands for the entries the
  matcher never reads. Ratings and scores are exact rationals (Python computes them in
  binary floating point, which is exact on the halves and quarters used below).
\<close>

datatype urgency_match = Experienced | Routine

record details =
  d_slot_match :: "string option"
  d_language_match :: "bool option"
  d_rating_score :: "rat option"
  d_experience_years :: "int option"
  d_sub_spec_match :: "string option"
  d_has_awards :: "bool option"
  d_age_appropriate :: "string option"
  d_urgency_experience_match :: "urgency_match option"

record doctor =
  name :: "string option"
  slots :: "string list option"
  languages_spoken :: "string list option"
  patient_rating :: "rat option"
  experience_years :: "int option"
  sub_specialization :: "string option"
  awards :: "string list option"
  other_keys :: "(string \<times> string) list"
  match_score :: "rat option"
  match_details :: "details option"
  match_quality :: "string option"

text \<open>\<open>d.get(key, default)\<close>\<close>

definition get_or :: "'a option \<Rightarrow> 'a \<Rightarrow> 'a" where
  "get_or v dflt = (case v of None \<Rightarrow> dflt | Some x \<Rightarrow> x)"

text \<open>The truth value of a dict: it has at least one key.\<close>

definition dict_truthy :: "doctor \<Rightarrow> bool" where
  "dict_truthy d =
     (name d \<noteq> None \<or> slots d \<noteq> None \<or> languages_spoken d \<noteq> None \<or> patient_rating d \<noteq> None
      \<or> experience_years d \<noteq> None \<or> sub_specialization d \<noteq> None \<or> awards d \<noteq> None
      \<or> other_keys d \<noteq> [] \<or> match_score d \<noteq> None \<or> match_details d \<noteq> None
      \<or> match_quality d \<noteq> None)"

definition empty_details :: details where
  "empty_details = \<lparr>d_slot_match = None, d_language_match = None, d_rating_score = None,
     d_experience_years = None, d_sub_spec_match = None, d_has_awards = None,
     d_age_appropriate = None, d_urgency_experience_match = None\<rparr>"

subsection \<open>The eight scoring factors of the loop body\<close>

text \<open>1. Slot availability, before and after the urgency boost.\<close>

definition slot_base :: "doctor \<Rightarrow> string \<Rightarrow> rat" where
  "slot_base doctor preferred_slot =
     (let doctor_slots = get_or (slots doctor) [] in
      if preferred_slot \<in> set doctor_slots then 40
      else if doctor_slots \<noteq> [] then 20
      else 0)"

definition slot_match :: "doctor \<Rightarrow> string \<Rightarrow> string" where
  "slot_match doctor preferred_slot =
     (let doctor_slots = get_or (slots doctor) [] in
      if preferred_slot \<in> set doctor_slots then ''exact''
      else if doctor_slots \<noteq> [] then ''alternative''
      else ''none'')"

definition slot_score :: "doctor \<Rightarrow> string \<Rightarrow> int \<Rightarrow> rat" where
  "slot_score doctor preferred_slot urgency_score =
     (if urgency_score \<ge> 70 then slot_base doctor preferred_slot * (3 / 2)
      else slot_base doctor preferred_slot)"

text \<open>2. Language match.\<close>

definition language_match :: "doctor \<Rightarrow> string \<Rightarrow> bool" where
  "language_match doctor patient_language =
     (patient_language \<in> set (get_or (languages_spoken doctor) []))"

definition language_score :: "doctor \<Rightarrow> string \<Rightarrow> rat" where
  "language_score doctor patient_language =
     (if language_match doctor patient_language then 25 else 0)"

text \<open>3. Rating and 4. experience.\<close>

definition rating_score :: "doctor \<Rightarrow> rat" where
  "rating_score doctor = get_or (patient_rating doctor) 0 * 4"

definition experience_score :: "doctor \<Rightarrow> rat" where
  "experience_score doctor = of_int (min (get_or (experience_years doctor) 0) 15)"

text \<open>
  5. Sub-specialization: the points and the \<open>sub_spec_match\<close> entry. A hint or a condition
  list counts only when it is truthy (not \<open>None\<close> and not empty).
\<close>

definition sub_spec_result :: "doctor \<Rightarrow> string option \<Rightarrow> string list option \<Rightarrow> rat \<times> string option" where
  "sub_spec_result doctor sub_specialization_hint patient_conditions =
     (let sub_spec = str_lower (get_or (sub_specialization doctor) '''') in
      if sub_specialization_hint \<noteq> None \<and> sub_specialization_hint \<noteq> Some '''' then
        (let hint_lower = str_lower (the sub_specialization_hint) in
         if str_in hint_lower sub_spec \<or> list_ex (\<lambda>word. str_in word sub_spec) (str_split hint_lower)
         then (30, Some ''strong'')
         else if sub_spec \<noteq> '''' then (10, Some ''partial'')
         else (0, None))
      else if patient_conditions \<noteq> None \<and> patient_conditions \<noteq> Some [] then
        (let condition_keywords = str_lower (str_join '' '' (the patient_conditions)) in
         if list_ex (\<lambda>keyword. str_in keyword sub_spec) (str_split condition_keywords)
         then (20, Some ''condition_based'')
         else (0, None))
      else (0, None))"

text \<open>6. Awards.\<close>

definition awards_result :: "doctor \<Rightarrow> rat \<times> bool option" where
  "awards_result doctor =
     (let aw = get_or (awards doctor) [] in
      if aw \<noteq> [] then (of_int (min (int (length aw) * 5) 10), Some True) else (0, None))"

text \<open>7. Age-appropriate care.\<close>

definition age_result :: "doctor \<Rightarrow> int option \<Rightarrow> string \<Rightarrow> rat \<times> string option" where
  "age_result doctor patient_age specialty_normalized =
     (case patient_age of
        None \<Rightarrow> (0, None)
      | Some age \<Rightarrow>
          if age < 18 \<and> specialty_normalized = ''Pediatrics'' then (10, Some ''pediatric'')
          else if age \<ge> 65 \<and> get_or (experience_years doctor) 0 \<ge> 10
          then (5, Some ''geriatric_experienced'')
          else (0, None))"

text \<open>8. Urgency-experience alignment.\<close>

definition urgency_experience_result :: "doctor \<Rightarrow> int \<Rightarrow> rat \<times> urgency_match option" where
  "urgency_experience_result doctor urgency_score =
     (if urgency_score \<ge> 80 \<and> get_or (experience_years doctor) 0 \<ge> 15 then (10, Some Experienced)
      else if urgency_score < 50 \<and> get_or (experience_years doctor) 0 < 10 then (5, Some Routine)
      else (0, None))"

text \<open>One pass of the loop body: the doctor's \<open>score\<close> and \<open>details\<close>.\<close>

definition score_doctor ::
  "string \<Rightarrow> string \<Rightarrow> string \<Rightarrow> int \<Rightarrow> int option \<Rightarrow> string option \<Rightarrow> string list option
     \<Rightarrow> doctor \<Rightarrow> rat \<times> details" where
  "score_doctor specialty_normalized preferred_slot patient_language urgency_score patient_age
       sub_specialization_hint patient_conditions doctor =
     (slot_score doctor preferred_slot urgency_score
        + language_score doctor patient_language
        + rating_score doctor
        + experience_score doctor
        + fst (sub_spec_result doctor sub_specialization_hint patient_conditions)
        + fst (awards_result doctor)
        + fst (age_result doctor patient_age specialty_normalized)
        + fst (urgency_experience_result doctor urgency_score),
      \<lparr>d_slot_match = Some (slot_match doctor preferred_slot),
       d_language_match = Some (language_match doctor patient_language),
       d_rating_score = Some (get_or (patient_rating doctor) 0),
       d_experience_years = Some (get_or (experience_years doctor) 0),
       d_sub_spec_match = snd (sub_spec_result doctor sub_specialization_hint patient_conditions),
       d_has_awards = snd (awards_result doctor),
       d_age_appropriate = snd (age_result doctor patient_age specialty_normalized),
       d_urgency_experience_match = snd (urgency_experience_result doctor urgency_score)\<rparr>)"

text \<open>
  \<open>round(best_score, 2)\<close>: to the nearest hundredth, a tie going to the even one.
\<close>

definition py_round2 :: "rat \<Rightarrow> rat" where
  "py_round2 x =
     (let y = x * 100; f = \<lfloor>y\<rfloor>; r = y - of_int f in
      of_int (if r < 1 / 2 then f else if 1 / 2 < r then f + 1 else if even f then f else f + 1) / 100)"

definition quality :: "rat \<Rightarrow> string" where
  "quality best_score =
     (if best_score \<ge> 100 then ''excellent''
      else if best_score \<ge> 70 then ''good''
      else if best_score \<ge> 50 then ''fair''
      else ''low'')"

subsection \<open>The catalog, the object store and \<open>find_best_doctor\<close>\<close>

text \<open>
  Doctor objects live in a store and are named by their address: the catalog holds
  addresses, \<open>doctor.copy()\<close> allocates a new object, and an assignment
  \<open>best_doctor[key] = v\<close> updates the store at one address. \<open>doctors_database\<close> is a
  Python dict in insertion order: specialty key to department, whose \<open>doctors\<close> entry may
  be absent.
\<close>

type_synonym addr = nat

type_synonym heap = "doctor list"

record department =
  doctors :: "addr list option"

type_synonym doctors_database = "(string \<times> department) list"

definition copy :: "heap \<Rightarrow> addr \<Rightarrow> addr \<times> heap" where
  "copy h a = (length h, h @ [h ! a])"

text \<open>Lines 101-120: exact key, else the first key that contains or is contained.\<close>

definition fuzzy_match :: "string \<Rightarrow> string \<Rightarrow> bool" where
  "fuzzy_match specialty key =
     (str_in (str_lower specialty) (str_lower key) \<or> str_in (str_lower key) (str_lower specialty))"

definition resolve_department :: "doctors_database \<Rightarrow> string \<Rightarrow> department option" where
  "resolve_department db specialty =
     (case map_of db (str_title specialty) of
        Some department \<Rightarrow> Some department
      | None \<Rightarrow>
          (case find (\<lambda>(key, department). fuzzy_match specialty key) db of
             Some (key, department) \<Rightarrow> Some department
           | None \<Rightarrow> None))"

text \<open>
  Lines 128-230: the loop over the department's doctors; the state is
  \<open>(best_doctor, best_score, match_details)\<close> and the store.
\<close>

fun score_loop ::
  "(doctor \<Rightarrow> rat \<times> details) \<Rightarrow> addr list \<Rightarrow> addr option \<times> rat \<times> details \<times> heap
     \<Rightarrow> addr option \<times> rat \<times> details \<times> heap" where
  "score_loop sc [] st = st"
| "score_loop sc (a # as) (best_doctor, best_score, md, h) =
     (let (score, det) = sc (h ! a) in
      if score > best_score
      then (let (b, h') = copy h a in score_loop sc as (Some b, score, det, h'))
      else score_loop sc as (best_doctor, best_score, md, h))"

text \<open>Lines 232-243: the annotations, written to the object \<open>best_doctor\<close> names.\<close>

definition annotate :: "addr option \<times> rat \<times> details \<times> heap \<Rightarrow> addr option \<times> heap" where
  "annotate st =
     (case st of (best_doctor, best_score, md, h) \<Rightarrow>
        (case best_doctor of
           None \<Rightarrow> (None, h)
         | Some b \<Rightarrow>
             if dict_truthy (h ! b)
             then (Some b, h[b := (h ! b)\<lparr>match_score := Some (py_round2 best_score),
                                          match_details := Some md,
                                          match_quality := Some (quality best_score)\<rparr>])
             else (Some b, h)))"

definition find_best_doctor ::
  "doctors_database \<Rightarrow> heap \<Rightarrow> string \<Rightarrow> string \<Rightarrow> string \<Rightarrow> int \<Rightarrow> int option \<Rightarrow> string option
     \<Rightarrow> string list option \<Rightarrow> addr option \<times> heap" where
  "find_best_doctor db h specialty preferred_slot patient_language urgency_score patient_age
       sub_specialization_hint patient_conditions =
     (case resolve_department db specialty of
        None \<Rightarrow> (None, h)
      | Some department \<Rightarrow>
          (let ds = get_or (doctors department) [] in
           if ds = [] then (None, h)
           else annotate (score_loop
                  (score_doctor (str_title specialty) preferred_slot patient_language urgency_score
                     patient_age sub_specialization_hint patient_conditions)
                  ds (None, - 1, empty_details, h))))"

text \<open>
  The candidate of the spec's scenario: slots \<open>{"09:00"}\<close>, rating 4.5, ten years of
  experience, English only, no subspecialty label and no awards; and a catalog holding
  only that candidate, under Cardiology, at address 0.
\<close>

definition scenario_doctor :: doctor where
  "scenario_doctor = \<lparr>name = Some ''Dr. Rao'', slots = Some [''09:00''],
     languages_spoken = Some [''English''], patient_rating = Some (9 / 2),
     experience_years = Some 10, sub_specialization = None, awards = None, other_keys = [],
     match_score = None, match_details = None, match_quality = None\<rparr>"

definition scenario_db :: doctors_database where
  "scenario_db = [(''Cardiology'', \<lparr>doctors = Some [0]\<rparr>)]"

text \<open>
  Well-formedness of a catalog against a store. Every address in a department's list names
  an object of the store (a Python reference always does). A candidate is in the domain of
  the data model when its rating is between 0 and 5 and its years of experience are not
  negative.
\<close>

definition catalog_refs_ok :: "doctors_database \<Rightarrow> heap \<Rightarrow> bool" where
  "catalog_refs_ok db h =
     list_all (\<lambda>(key, department).
        list_all (\<lambda>a. a < length h) (get_or (doctors department) [])) db"


section \<open>Stage pipeline (\<open>triage_orchestrator.py\<close>) and the web runner (\<open>app.py\<close>)\<close>

text \<open>
  A patient and the result of a stage are JSON objects read with \<open>.get\<close>, so every key
  is optional. One record serves the three stage results: a Python dict has no fixed
  schema, and any stage may carry any of the keys. The three stages are injected
  collaborators that return a dict or raise; raising is \<open>Inl\<close> of the exception's message.
\<close>

record patient =
  p_name :: "string option"
  p_age :: "int option"
  p_preferred_language :: "string option"
  p_preferred_slot :: "string option"
  p_symptoms :: "string option"
  p_pre_existing_conditions :: "string list option"

record analysis =
  a_error :: "string option"
  a_primary_specialty :: "string option"
  a_potential_conditions :: "string list option"
  a_urgency_score :: "int option"
  a_final_specialty :: "string option"

record stages =
  analyze_symptoms :: "patient \<Rightarrow> string + analysis"
  calculate_urgency :: "patient \<Rightarrow> analysis \<Rightarrow> string + analysis"
  final_evaluation :: "patient \<Rightarrow> analysis \<Rightarrow> analysis \<Rightarrow> string + analysis"

text \<open>The \<open>result\<close> dict of one patient (its timestamp is left out).\<close>

record triage_result =
  r_patient :: patient
  gemini :: analysis
  grok :: analysis
  o4mini :: analysis
  matched_doctor :: "addr option"

text \<open>\<open>{'error': str(e)}\<close>\<close>

definition error_placeholder :: "string \<Rightarrow> analysis" where
  "error_placeholder e = \<lparr>a_error = Some e, a_primary_specialty = None,
     a_potential_conditions = None, a_urgency_score = None, a_final_specialty = None\<rparr>"

text \<open>
  The arguments of the call to \<open>find_best_doctor\<close>, computed the same way in
  \<open>process_patient\<close> (lines 150-177) and in \<open>run_triage_background\<close> (lines 157-170).
  \<open>specialty\<close> is \<open>None\<close> when both stages lack their key.
\<close>

record match_args =
  arg_specialty :: "string option"
  arg_preferred_slot :: string
  arg_patient_language :: string
  arg_urgency_score :: int
  arg_patient_age :: "int option"
  arg_sub_specialization_hint :: "string option"
  arg_patient_conditions :: "string list option"

definition matching_arguments :: "patient \<Rightarrow> analysis \<Rightarrow> analysis \<Rightarrow> analysis \<Rightarrow> match_args" where
  "matching_arguments patient_data gemini_result grok_result o4_result =
     (let potential_conditions = get_or (a_potential_conditions gemini_result) [] in
      \<lparr>arg_specialty =
         (case a_final_specialty o4_result of
            Some s \<Rightarrow> Some s
          | None \<Rightarrow> a_primary_specialty gemini_result),
       arg_preferred_slot = get_or (p_preferred_slot patient_data) ''09:00'',
       arg_patient_language = get_or (p_preferred_language patient_data) ''English'',
       arg_urgency_score = get_or (a_urgency_score grok_result) 50,
       arg_patient_age = p_age patient_data,
       arg_sub_specialization_hint =
         (case potential_conditions of [] \<Rightarrow> None | c # cs \<Rightarrow> Some c),
       arg_patient_conditions = Some (get_or (p_pre_existing_conditions patient_data) [])\<rparr>)"

text \<open>
  The call itself: \<open>specialty.title()\<close> raises \<open>AttributeError\<close> on \<open>None\<close>, before the
  store is touched.
\<close>

definition call_matcher :: "doctors_database \<Rightarrow> heap \<Rightarrow> match_args \<Rightarrow> string + (addr option \<times> heap)" where
  "call_matcher db h args =
     (case arg_specialty args of
        None \<Rightarrow> Inl ''AttributeError''
      | Some specialty \<Rightarrow>
          Inr (find_best_doctor db h specialty (arg_preferred_slot args) (arg_patient_language args)
                 (arg_urgency_score args) (arg_patient_age args) (arg_sub_specialization_hint args)
                 (arg_patient_conditions args)))"

subsection \<open>\<open>TriageOrchestrator.process_patient\<close> and the loop of \<open>run\<close>\<close>

text \<open>Each stage sits in its own \<open>try\<close>; the handler stores the placeholder.\<close>

definition contained :: "string + analysis \<Rightarrow> analysis" where
  "contained outcome = (case outcome of Inl e \<Rightarrow> error_placeholder e | Inr result \<Rightarrow> result)"

definition process_patient :: "stages \<Rightarrow> doctors_database \<Rightarrow> heap \<Rightarrow> patient \<Rightarrow> triage_result \<times> heap" where
  "process_patient st db h patient_data =
     (let gemini_result = contained (analyze_symptoms st patient_data);
          grok_result = contained (calculate_urgency st patient_data gemini_result);
          o4_result = contained (final_evaluation st patient_data gemini_result grok_result);
          (doctor, h') =
             (case call_matcher db h (matching_arguments patient_data gemini_result grok_result o4_result) of
                Inl e \<Rightarrow> (None, h)
              | Inr found \<Rightarrow> found)
      in (\<lparr>r_patient = patient_data, gemini = gemini_result, grok = grok_result,
            o4mini = o4_result, matched_doctor = doctor\<rparr>, h'))"

text \<open>Lines 253-256 of \<open>run\<close>: \<open>self.results.append(self.process_patient(patient))\<close>.\<close>

fun run_patients ::
  "stages \<Rightarrow> doctors_database \<Rightarrow> patient list \<Rightarrow> triage_result list \<times> heap
     \<Rightarrow> triage_result list \<times> heap" where
  "run_patients st db [] (results, h) = (results, h)"
| "run_patients st db (patient_data # rest) (results, h) =
     (let (result, h') = process_patient st db h patient_data
      in run_patients st db rest (results @ [result], h'))"

subsection \<open>The loop of \<open>run_triage_background\<close> (\<open>app.py\<close>, lines 104-207)\<close>

text \<open>
  The web runner calls the stages and the matcher inline, with no \<open>try\<close> of their own: an
  exception leaves the loop for the handler of the whole run. The outcome is the
  exception, if any, with the results appended so far.
\<close>

fun triage_loop ::
  "stages \<Rightarrow> doctors_database \<Rightarrow> patient list \<Rightarrow> triage_result list \<times> heap
     \<Rightarrow> string option \<times> triage_result list \<times> heap" where
  "triage_loop st db [] (results, h) = (None, results, h)"
| "triage_loop st db (patient_data # rest) (results, h) =
     (case analyze_symptoms st patient_data of
        Inl e \<Rightarrow> (Some e, results, h)
      | Inr gemini_result \<Rightarrow>
          (case calculate_urgency st patient_data gemini_result of
             Inl e \<Rightarrow> (Some e, results, h)
           | Inr grok_result \<Rightarrow>
               (case final_evaluation st patient_data gemini_result grok_result of
                  Inl e \<Rightarrow> (Some e, results, h)
                | Inr o4_result \<Rightarrow>
                    (case call_matcher db h
                            (matching_arguments patient_data gemini_result grok_result o4_result) of
                       Inl e \<Rightarrow> (Some e, results, h)
                     | Inr (doctor, h') \<Rightarrow>
                         triage_loop st db rest
                           (results @ [\<lparr>r_patient = patient_data, gemini = gemini_result,
                                         grok = grok_result, o4mini = o4_result,
                                         matched_doctor = doctor\<rparr>], h')))))"

subsection \<open>Run status: \<open>start_triage\<close> and \<open>run_triage_background\<close> (\<open>app.py\<close>)\<close>

text \<open>
  The global \<open>processing_status\<close> dict (the display counters \<open>current_patient\<close> and
  \<open>progress\<close> are left out). What the run calls outside the pipeline is a collaborator
  that returns or raises: building the orchestrator, loading the patient file, and the
  reporting steps after the loop, which raise under some \<open>current_step\<close>.
\<close>

record processing_status =
  is_running :: bool
  total_patients :: nat
  current_step :: string
  results :: "triage_result list"

record collaborators =
  init_system :: "string option"
  load_patients :: "string \<Rightarrow> string + patient list"
  make_reports :: "triage_result list \<Rightarrow> (string \<times> string) option"

text \<open>
  A start request as the handler meets it. \<open>request.get_json()\<close> raises on a malformed
  body; \<open>request.get_json() or {}\<close> is a dict for a JSON object and for every falsy value,
  with the key \<open>patient_file\<close> present or not; any other JSON value has no \<open>get\<close>, so
  \<open>data.get\<close> raises \<open>AttributeError\<close>. \<open>thread.start()\<close> raises when no thread can be
  started. The value of \<open>config.DEFAULT_PATIENT_FILE\<close> depends on the installation and is
  a parameter.
\<close>

datatype request_body = Bad_request string | Not_an_object | Object "string option"

record request =
  body :: request_body
  thread_start_fails :: "string option"

datatype start_outcome = Responded bool string | Raised string

text \<open>The status dict that \<open>start_triage\<close> binds at lines 301-308.\<close>

definition fresh_status :: processing_status where
  "fresh_status =
     \<lparr>is_running = True, total_patients = 0, current_step = ''starting'', results = []\<rparr>"

text \<open>
  \<open>start_triage\<close>, run without interruption: the response or the exception, the new
  status, and the patient file of the background thread it started, if it started one.
  The flag is set (line 301) before the body is read (lines 318-319) and the thread is
  started (lines 322-324), so an exception there leaves the flag set and starts no run.
\<close>

definition start_triage ::
  "string \<Rightarrow> processing_status \<Rightarrow> request \<Rightarrow> start_outcome \<times> processing_status \<times> string option" where
  "start_triage default_file status req =
     (if is_running status then (Responded False ''Triage already running'', status, None)
      else
        (case body req of
           Bad_request e \<Rightarrow> (Raised e, fresh_status, None)
         | Not_an_object \<Rightarrow> (Raised ''AttributeError'', fresh_status, None)
         | Object given \<Rightarrow>
             (case thread_start_fails req of
                Some e \<Rightarrow> (Raised e, fresh_status, None)
              | None \<Rightarrow>
                  (Responded True ''Triage process started'', fresh_status,
                   Some (get_or given default_file)))))"

text \<open>
  The \<open>try\<close> block of \<open>run_triage_background\<close>: the exception, if any, and the state.
  \<open>try_rest\<close> is the block after its first two assignments (lines 73-74).
\<close>

definition try_rest ::
  "collaborators \<Rightarrow> stages \<Rightarrow> doctors_database \<Rightarrow> heap \<Rightarrow> string \<Rightarrow> processing_status
     \<Rightarrow> string option \<times> processing_status \<times> heap" where
  "try_rest env st db h patient_file status1 =
     (case init_system env of
        Some e \<Rightarrow> (Some e, status1, h)
      | None \<Rightarrow>
          (let status2 = status1\<lparr>current_step := ''loading_patients''\<rparr> in
           case load_patients env patient_file of
             Inl e \<Rightarrow> (Some e, status2, h)
           | Inr patients \<Rightarrow>
               (let status3 = status2\<lparr>total_patients := length patients\<rparr>;
                    (raised, rs, h') = triage_loop st db patients ([], h);
                    status4 =
                      (if patients = [] then status3
                       else status3\<lparr>current_step := ''processing_patient'',
                                    results := results status3 @ rs\<rparr>)
                in case raised of
                     Some e \<Rightarrow> (Some e, status4, h')
                   | None \<Rightarrow>
                       (case make_reports env rs of
                          Some (step, e) \<Rightarrow> (Some e, status4\<lparr>current_step := step\<rparr>, h')
                        | None \<Rightarrow> (None, status4\<lparr>current_step := ''complete''\<rparr>, h')))))"

definition try_block ::
  "collaborators \<Rightarrow> stages \<Rightarrow> doctors_database \<Rightarrow> heap \<Rightarrow> string \<Rightarrow> processing_status
     \<Rightarrow> string option \<times> processing_status \<times> heap" where
  "try_block env st db h patient_file status =
     try_rest env st db h patient_file
       (status\<lparr>is_running := True, current_step := ''initializing''\<rparr>)"

text \<open>
  \<open>except Exception\<close> sets the step to \<open>error\<close>; \<open>finally\<close> clears the flag, whichever way
  the \<open>try\<close> block ended.
\<close>

definition run_triage_background ::
  "collaborators \<Rightarrow> stages \<Rightarrow> doctors_database \<Rightarrow> heap \<Rightarrow> string \<Rightarrow> processing_status
     \<Rightarrow> processing_status \<times> heap" where
  "run_triage_background env st db h patient_file status =
     (case try_block env st db h patient_file status of
        (raised, status', h') \<Rightarrow>
          (let handled = (case raised of
                            Some e \<Rightarrow> status'\<lparr>current_step := ''error''\<rparr>
                          | None \<Rightarrow> status')
           in (handled\<lparr>is_running := False\<rparr>, h')))"

text \<open>
  The server with its threads. Flask serves with \<open>threaded=True\<close>: every request has a
  handler thread, every accepted start has a background thread, and they interleave
  between statements. A handler of \<open>start_triage\<close> is at the check of the flag (line 297),
  at the assignment of the status (line 301), at the reading of the body (line 318) or at
  the start of the thread (line 322). A background run is at its first assignments
  (line 73), in the rest of the \<open>try\<close> block with its \<open>except\<close> handler, or at \<open>finally\<close>
  (line 283). The one shared variable is the status; the rest of the \<open>try\<close> block writes
  its other keys and never \<open>is_running\<close>, and is taken as one step.
\<close>

datatype handler = At_check request | At_reset request | At_parse request | At_spawn request string

datatype run = At_begin string | At_body string | At_finally

record web =
  w_status :: processing_status
  w_store :: heap
  w_handlers :: "handler list"
  w_runs :: "run list"
  w_log :: "start_outcome list"

datatype action = Arrive request | Handler nat | Run nat

definition drop_at :: "nat \<Rightarrow> 'a list \<Rightarrow> 'a list" where
  "drop_at i xs = take i xs @ drop (Suc i) xs"

definition handler_step :: "string \<Rightarrow> web \<Rightarrow> nat \<Rightarrow> web option" where
  "handler_step default_file w i =
     (if i < length (w_handlers w) then
        Some (case w_handlers w ! i of
           At_check req \<Rightarrow>
             if is_running (w_status w)
             then w\<lparr>w_handlers := drop_at i (w_handlers w),
                    w_log := w_log w @ [Responded False ''Triage already running'']\<rparr>
             else w\<lparr>w_handlers := (w_handlers w)[i := At_reset req]\<rparr>
         | At_reset req \<Rightarrow>
             w\<lparr>w_status := fresh_status, w_handlers := (w_handlers w)[i := At_parse req]\<rparr>
         | At_parse req \<Rightarrow>
             (case body req of
                Bad_request e \<Rightarrow>
                  w\<lparr>w_handlers := drop_at i (w_handlers w), w_log := w_log w @ [Raised e]\<rparr>
              | Not_an_object \<Rightarrow>
                  w\<lparr>w_handlers := drop_at i (w_handlers w),
                     w_log := w_log w @ [Raised ''AttributeError'']\<rparr>
              | Object given \<Rightarrow>
                  w\<lparr>w_handlers := (w_handlers w)[i := At_spawn req (get_or given default_file)]\<rparr>)
         | At_spawn req patient_file \<Rightarrow>
             (case thread_start_fails req of
                Some e \<Rightarrow>
                  w\<lparr>w_handlers := drop_at i (w_handlers w), w_log := w_log w @ [Raised e]\<rparr>
              | None \<Rightarrow>
                  w\<lparr>w_handlers := drop_at i (w_handlers w),
                     w_runs := w_runs w @ [At_begin patient_file],
                     w_log := w_log w @ [Responded True ''Triage process started'']\<rparr>))
      else None)"

definition run_step :: "collaborators \<Rightarrow> stages \<Rightarrow> doctors_database \<Rightarrow> web \<Rightarrow> nat \<Rightarrow> web option" where
  "run_step env st db w j =
     (if j < length (w_runs w) then
        Some (case w_runs w ! j of
           At_begin patient_file \<Rightarrow>
             w\<lparr>w_status := (w_status w)\<lparr>is_running := True, current_step := ''initializing''\<rparr>,
                w_runs := (w_runs w)[j := At_body patient_file]\<rparr>
         | At_body patient_file \<Rightarrow>
             (case try_rest env st db (w_store w) patient_file (w_status w) of
                (raised, status', h') \<Rightarrow>
                  w\<lparr>w_status := (case raised of
                                    Some e \<Rightarrow> status'\<lparr>current_step := ''error''\<rparr>
                                  | None \<Rightarrow> status'),
                     w_store := h',
                     w_runs := (w_runs w)[j := At_finally]\<rparr>)
         | At_finally \<Rightarrow>
             w\<lparr>w_status := (w_status w)\<lparr>is_running := False\<rparr>,
                w_runs := drop_at j (w_runs w)\<rparr>)
      else None)"

definition web_step ::
  "collaborators \<Rightarrow> stages \<Rightarrow> doctors_database \<Rightarrow> string \<Rightarrow> web \<Rightarrow> action \<Rightarrow> web option" where
  "web_step env st db default_file w a =
     (case a of
        Arrive req \<Rightarrow> Some (w\<lparr>w_handlers := w_handlers w @ [At_check req]\<rparr>)
      | Handler i \<Rightarrow> handler_step default_file w i
      | Run j \<Rightarrow> run_step env st db w j)"

fun web_run ::
  "collaborators \<Rightarrow> stages \<Rightarrow> doctors_database \<Rightarrow> string \<Rightarrow> web \<Rightarrow> action list \<Rightarrow> web option" where
  "web_run env st db default_file w [] = Some w"
| "web_run env st db default_file w (a # as) =
     (case web_step env st db default_file w a of
        None \<Rightarrow> None
      | Some w' \<Rightarrow> web_run env st db default_file w' as)"

definition idle_web :: "heap \<Rightarrow> web" where
  "idle_web h =
     \<lparr>w_status = \<lparr>is_running = False, total_patients = 0, current_step = ''idle'', results = []\<rparr>,
      w_store = h, w_handlers = [], w_runs = [], w_log = []\<rparr>"

text \<open>
  Fixtures: a patient with no keys, a mapping result naming Cardiology, and a pipeline
  whose urgency stage raises.
\<close>

definition empty_analysis :: analysis where
  "empty_analysis = \<lparr>a_error = None, a_primary_specialty = None,
     a_potential_conditions = None, a_urgency_score = None, a_final_specialty = None\<rparr>"

definition bare_patient :: patient where
  "bare_patient = \<lparr>p_name = None, p_age = None, p_preferred_language = None,
     p_preferred_slot = None, p_symptoms = None, p_pre_existing_conditions = None\<rparr>"

definition urgency_fails :: stages where
  "urgency_fails =
     \<lparr>analyze_symptoms = (\<lambda>p. Inr (empty_analysis\<lparr>a_primary_specialty := Some ''Cardiology''\<rparr>)),
      calculate_urgency = (\<lambda>p g. Inl ''timeout''),
      final_evaluation = (\<lambda>p g k. Inr (empty_analysis\<lparr>a_final_specialty := Some ''Cardiology''\<rparr>))\<rparr>"

text \<open>Collaborators that load two patients and never raise.\<close>

definition quiet_env :: collaborators where
  "quiet_env = \<lparr>init_system = None, load_patients = (\<lambda>f. Inr [bare_patient, bare_patient]),
                 make_reports = (\<lambda>rs. None)\<rparr>"

text \<open>A well-formed start request naming no file, and one whose body does not parse.\<close>

definition plain_request :: request where
  "plain_request = \<lparr>body = Object None, thread_start_fails = None\<rparr>"

definition broken_request :: request where
  "broken_request = \<lparr>body = Bad_request ''400 Bad Request'', thread_start_fails = None\<rparr>"



section \<open>Verified properties\<close>

subsection \<open>Hint extraction\<close>

lemma max_items_ge_start: "snd b \<le> snd (max_items b xs)"
proof (induction xs arbitrary: b)
  case Nil
  show ?case by simp
next
  case (Cons x xs)
  have "snd (if snd b < snd x then x else b) \<le> snd (max_items (if snd b < snd x then x else b) xs)"
    by (rule Cons.IH)
  then show ?case by (simp split: if_splits)
qed

lemma max_items_split_gen:
  "max_items b xs = mx \<Longrightarrow>
     \<exists>pre post. b # xs = pre @ mx # post
      \<and> (\<forall>p\<in>set pre. snd p < snd mx) \<and> (\<forall>q\<in>set post. snd q \<le> snd mx)"
proof (induction xs arbitrary: b)
  case Nil
  then have "[b] = [] @ mx # [] \<and> (\<forall>p\<in>set []. snd p < snd mx)
      \<and> (\<forall>q\<in>set []. snd q \<le> snd mx)" by simp
  then show ?case by blast
next
  case (Cons x xs)
  show ?case
  proof (cases "snd b < snd x")
    case True
    with Cons.prems have m: "max_items x xs = mx" by simp
    from Cons.IH [OF m] obtain pre post where
      d: "x # xs = pre @ mx # post"
      and lt: "\<forall>p\<in>set pre. snd p < snd mx"
      and le: "\<forall>q\<in>set post. snd q \<le> snd mx" by blast
    have "snd b < snd mx"
      using True max_items_ge_start [of x xs] m by simp
    with d lt le have "b # x # xs = (b # pre) @ mx # post
        \<and> (\<forall>p\<in>set (b # pre). snd p < snd mx)
        \<and> (\<forall>q\<in>set post. snd q \<le> snd mx)" by simp
    then show ?thesis by blast
  next
    case False
    with Cons.prems have m: "max_items b xs = mx" by simp
    from Cons.IH [OF m] obtain pre post where
      d: "b # xs = pre @ mx # post"
      and lt: "\<forall>p\<in>set pre. snd p < snd mx"
      and le: "\<forall>q\<in>set post. snd q \<le> snd mx" by blast
    show ?thesis
    proof (cases pre)
      case Nil
      with d have b: "b = mx" and xs: "xs = post" by simp_all
      have "b # x # xs = [] @ mx # (x # post)
        \<and> (\<forall>p\<in>set []. snd p < snd mx)
        \<and> (\<forall>q\<in>set (x # post). snd q \<le> snd mx)"
        using b xs le False by auto
      then show ?thesis by blast
    next
      case (Cons p pre')
      with d have pb: "p = b" and xs: "xs = pre' @ mx # post" by simp_all
      from lt Cons pb have bl: "snd b < snd mx" by simp
      have "b # x # xs = (b # x # pre') @ mx # post" using xs by simp
      moreover have "\<forall>p\<in>set (b # x # pre'). snd p < snd mx"
        using lt Cons pb bl False by auto
      ultimately show ?thesis using le by blast
    qed
  qed
qed

lemma max_items_split:
  "\<exists>pre post. b # xs = pre @ max_items b xs # post
      \<and> (\<forall>p\<in>set pre. snd p < snd (max_items b xs))
      \<and> (\<forall>q\<in>set post. snd q \<le> snd (max_items b xs))"
  by (rule max_items_split_gen [OF refl])

lemma filter_split:
  "filter P ys = pre @ w # post \<Longrightarrow>
     \<exists>pre' post'. ys = pre' @ w # post' \<and> filter P pre' = pre \<and> filter P post' = post"
proof (induction ys arbitrary: pre)
  case Nil
  then show ?case by simp
next
  case (Cons y ys)
  show ?case
  proof (cases "P y")
    case False
    with Cons.prems have "filter P ys = pre @ w # post" by simp
    from Cons.IH [OF this] obtain pre' post' where
      "ys = pre' @ w # post'" "filter P pre' = pre" "filter P post' = post" by blast
    with False have "y # ys = (y # pre') @ w # post' \<and> filter P (y # pre') = pre
        \<and> filter P post' = post" by simp
    then show ?thesis by blast
  next
    case True
    with Cons.prems have e: "y # filter P ys = pre @ w # post" by simp
    show ?thesis
    proof (cases pre)
      case Nil
      with e have "y = w" "filter P ys = post" by simp_all
      then have "y # ys = [] @ w # ys \<and> filter P [] = pre \<and> filter P ys = post"
        using Nil by simp
      then show ?thesis by blast
    next
      case (Cons p pre1)
      with e have py: "p = y" and f: "filter P ys = pre1 @ w # post" by simp_all
      from Cons.IH [OF f] obtain pre' post' where
        "ys = pre' @ w # post'" "filter P pre' = pre1" "filter P post' = post" by blast
      with True py Cons have "y # ys = (y # pre') @ w # post' \<and> filter P (y # pre') = pre
        \<and> filter P post' = post" by simp
      then show ?thesis by blast
    qed
  qed
qed



lemma subspecialty_matches_winner:
  assumes "subspecialty_matches subs txt = m # ms"
  shows "\<exists>pre w kws post. subs = pre @ (w, kws) # post
           \<and> fst (max_items m ms) = w
           \<and> 0 < match_count kws txt
           \<and> (\<forall>(s, k)\<in>set pre. match_count k txt < match_count kws txt)
           \<and> (\<forall>(s, k)\<in>set post. match_count k txt \<le> match_count kws txt)"
proof -
  let ?f = "\<lambda>(subspec, keywords). (subspec, match_count keywords txt)"
  let ?P = "\<lambda>(subspec :: string, n :: nat). 0 < n"
  let ?b = "max_items m ms"
  from max_items_split [of m ms] obtain pre post where
    d: "m # ms = pre @ ?b # post"
    and lt: "\<forall>p\<in>set pre. snd p < snd ?b"
    and le: "\<forall>q\<in>set post. snd q \<le> snd ?b" by blast
  from assms d have "filter ?P (map ?f subs) = pre @ ?b # post"
    by (simp add: subspecialty_matches_def)
  from filter_split [OF this] obtain pre' post' where
    ys: "map ?f subs = pre' @ ?b # post'"
    and fpre: "filter ?P pre' = pre" and fpost: "filter ?P post' = post" by blast
  have "?b \<in> set (filter ?P (map ?f subs))"
    using assms d by (simp add: subspecialty_matches_def)
  then have pos: "0 < snd ?b" by auto
  have lt': "\<forall>p\<in>set pre'. snd p < snd ?b"
  proof
    fix p assume p: "p \<in> set pre'"
    show "snd p < snd ?b"
    proof (cases "?P p")
      case True
      with p fpre have "p \<in> set pre" by auto
      with lt show ?thesis by simp
    next
      case False
      then have "snd p = 0" by (cases p) simp
      with pos show ?thesis by simp
    qed
  qed
  have le': "\<forall>q\<in>set post'. snd q \<le> snd ?b"
  proof
    fix q assume q: "q \<in> set post'"
    show "snd q \<le> snd ?b"
    proof (cases "?P q")
      case True
      with q fpost have "q \<in> set post" by auto
      with le show ?thesis by simp
    next
      case False
      then have "snd q = 0" by (cases q) simp
      then show ?thesis by simp
    qed
  qed
  from ys obtain us vs where
    subs: "subs = us @ vs" and us: "pre' = map ?f us" and vs: "?b # post' = map ?f vs"
    by (auto simp: map_eq_append_conv)
  from vs obtain e vs' where
    vse: "vs = e # vs'" and e: "?b = ?f e" and vs': "post' = map ?f vs'"
    by (auto simp: Cons_eq_map_conv)
  obtain w kws where ew: "e = (w, kws)" by (cases e)
  have b: "?b = (w, match_count kws txt)" using e ew by simp
  have "subs = us @ (w, kws) # vs'" using subs vse ew by simp
  moreover have "fst ?b = w" using b by simp
  moreover have "0 < match_count kws txt" using pos b by simp
  moreover have "\<forall>(s, k)\<in>set us. match_count k txt < match_count kws txt"
    using lt' us b by auto
  moreover have "\<forall>(s, k)\<in>set vs'. match_count k txt \<le> match_count kws txt"
    using le' vs' b by auto
  ultimately show ?thesis by blast
qed

lemma table_labels_title_cased:
  "list_all (\<lambda>(sp, subs). list_all (\<lambda>(key, kws). title_cased (hint_label key)) subs)
     SUBSPECIALTY_KEYWORDS"
  by code_simp



lemma hint_label_heart_failure: "hint_label ''heart_failure'' = ''Heart Failure''"
  by code_simp

lemma extract_cases:
  "extract_subspecialty_hints symptoms specialty conditions =
     (case map_of SUBSPECIALTY_KEYWORDS (str_title specialty) of
        None \<Rightarrow> None
      | Some subs \<Rightarrow>
          (case subspecialty_matches subs (text_to_analyze symptoms conditions) of
             [] \<Rightarrow> None
           | m # ms \<Rightarrow> Some (hint_label (fst (max_items m ms)))))"
  by (simp add: extract_subspecialty_hints_def)










text \<open>
  Claim C7. The severity is "critical" exactly when an emergency keyword occurs in the
  lowercased symptom text or the score is at least 90; otherwise "high" exactly when the
  score is at least 70; otherwise "moderate" exactly when it is at least 40; otherwise
  "low".
\<close>

theorem calculate_condition_severity_bands:
  "((calculate_condition_severity symptoms urgency_score = ''critical'') =
      ((\<exists>keyword\<in>set EMERGENCY_KEYWORDS. str_in keyword (str_lower symptoms)) \<or> urgency_score \<ge> 90))
   \<and> ((calculate_condition_severity symptoms urgency_score = ''high'') =
      (\<not> ((\<exists>keyword\<in>set EMERGENCY_KEYWORDS. str_in keyword (str_lower symptoms)) \<or> urgency_score \<ge> 90)
        \<and> urgency_score \<ge> 70))
   \<and> ((calculate_condition_severity symptoms urgency_score = ''moderate'') =
      (\<not> ((\<exists>keyword\<in>set EMERGENCY_KEYWORDS. str_in keyword (str_lower symptoms)) \<or> urgency_score \<ge> 90)
        \<and> \<not> urgency_score \<ge> 70 \<and> urgency_score \<ge> 40))
   \<and> ((calculate_condition_severity symptoms urgency_score = ''low'') =
      (\<not> ((\<exists>keyword\<in>set EMERGENCY_KEYWORDS. str_in keyword (str_lower symptoms)) \<or> urgency_score \<ge> 90)
        \<and> \<not> urgency_score \<ge> 70 \<and> \<not> urgency_score \<ge> 40))"
proof -
  have e: "has_emergency symptoms =
      (\<exists>keyword\<in>set EMERGENCY_KEYWORDS. str_in keyword (str_lower symptoms))"
    by (simp add: has_emergency_def list_ex_iff)
  show ?thesis
    unfolding e [symmetric] calculate_condition_severity_def
    by (cases "has_emergency symptoms") auto
qed

lemma chest_pain_emergency: "has_emergency ''Mild CHEST pain since noon'' = True"
  by code_simp

lemma cough_no_emergency: "has_emergency ''dry cough'' = False"
  by code_simp

theorem calculate_condition_severity_bands_witness:
  "calculate_condition_severity ''Mild CHEST pain since noon'' 10 = ''critical''
   \<and> calculate_condition_severity ''dry cough'' 90 = ''critical''
   \<and> calculate_condition_severity ''dry cough'' 89 = ''high''
   \<and> calculate_condition_severity ''dry cough'' 70 = ''high''
   \<and> calculate_condition_severity ''dry cough'' 69 = ''moderate''
   \<and> calculate_condition_severity ''dry cough'' 40 = ''moderate''
   \<and> calculate_condition_severity ''dry cough'' 39 = ''low''"
proof -
  have a: "(\<exists>keyword\<in>set EMERGENCY_KEYWORDS. str_in keyword (str_lower ''Mild CHEST pain since noon''))"
    using chest_pain_emergency by (simp add: has_emergency_def list_ex_iff)
  have b: "\<not> (\<exists>keyword\<in>set EMERGENCY_KEYWORDS. str_in keyword (str_lower ''dry cough''))"
    using cough_no_emergency by (simp add: has_emergency_def list_ex_iff)
  have "calculate_condition_severity ''Mild CHEST pain since noon'' 10 = ''critical''"
    using a calculate_condition_severity_bands [of "''Mild CHEST pain since noon''" 10] by simp
  moreover have "calculate_condition_severity ''dry cough'' 90 = ''critical''"
    using b calculate_condition_severity_bands [of "''dry cough''" 90] by simp
  moreover have "calculate_condition_severity ''dry cough'' 89 = ''high''"
    using b calculate_condition_severity_bands [of "''dry cough''" 89] by simp
  moreover have "calculate_condition_severity ''dry cough'' 70 = ''high''"
    using b calculate_condition_severity_bands [of "''dry cough''" 70] by simp
  moreover have "calculate_condition_severity ''dry cough'' 69 = ''moderate''"
    using b calculate_condition_severity_bands [of "''dry cough''" 69] by simp
  moreover have "calculate_condition_severity ''dry cough'' 40 = ''moderate''"
    using b calculate_condition_severity_bands [of "''dry cough''" 40] by simp
  moreover have "calculate_condition_severity ''dry cough'' 39 = ''low''"
    using b calculate_condition_severity_bands [of "''dry cough''" 39] by simp
  ultimately show ?thesis by blast
qed

lemma table_key_title_cased:
  assumes "map_of SUBSPECIALTY_KEYWORDS sp = Some subs" and "(w, kws) \<in> set subs"
  shows "title_cased (hint_label w)"
proof -
  from assms(1) have "(sp, subs) \<in> set SUBSPECIALTY_KEYWORDS" by (rule map_of_SomeD)
  with table_labels_title_cased have "list_all (\<lambda>(key, kws). title_cased (hint_label key)) subs"
    by (auto simp: list_all_iff)
  with assms(2) show ?thesis by (auto simp: list_all_iff)
qed

text \<open>
  Claim C10. A returned hint is the winning table key with every underscore replaced by a
  space and then title-cased: it contains no underscore, and each of its words is one
  capital letter followed by lowercase letters. The key \<open>heart_failure\<close> is returned as
  \<open>Heart Failure\<close>.
\<close>

theorem hint_is_title_cased_table_key:
  "(extract_subspecialty_hints symptoms specialty conditions = Some h \<longrightarrow>
      (\<exists>subs pre w kws post.
          map_of SUBSPECIALTY_KEYWORDS (str_title specialty) = Some subs
          \<and> subs = pre @ (w, kws) # post
          \<and> (\<forall>(s, k)\<in>set pre. match_count k (text_to_analyze symptoms conditions)
                  < match_count kws (text_to_analyze symptoms conditions))
          \<and> (\<forall>(s, k)\<in>set post. match_count k (text_to_analyze symptoms conditions)
                  \<le> match_count kws (text_to_analyze symptoms conditions))
          \<and> h = str_title (str_replace (CHR ''_'') (CHR '' '') w))
      \<and> CHR ''_'' \<notin> set h
      \<and> (\<forall>word\<in>set (str_split h). \<exists>c cs. word = c # cs \<and> is_upper c \<and> (\<forall>d\<in>set cs. is_lower d)))
   \<and> hint_label ''heart_failure'' = ''Heart Failure''"
proof (intro conjI impI)
  let ?txt = "text_to_analyze symptoms conditions"
  assume h: "extract_subspecialty_hints symptoms specialty conditions = Some h"
  then obtain subs where s: "map_of SUBSPECIALTY_KEYWORDS (str_title specialty) = Some subs"
    by (auto simp: extract_cases split: option.splits)
  with h obtain m ms where ms: "subspecialty_matches subs ?txt = m # ms"
    and hl: "h = hint_label (fst (max_items m ms))"
    by (auto simp: extract_cases split: list.splits)
  from subspecialty_matches_winner [OF ms] obtain pre w kws post where
    w: "subs = pre @ (w, kws) # post" "fst (max_items m ms) = w"
      "\<forall>(s, k)\<in>set pre. match_count k ?txt < match_count kws ?txt"
      "\<forall>(s, k)\<in>set post. match_count k ?txt \<le> match_count kws ?txt" by blast
  from hl w(2) have hw: "h = str_title (str_replace (CHR ''_'') (CHR '' '') w)"
    by (simp add: hint_label_def)
  with s w show "\<exists>subs pre w kws post.
          map_of SUBSPECIALTY_KEYWORDS (str_title specialty) = Some subs
          \<and> subs = pre @ (w, kws) # post
          \<and> (\<forall>(s, k)\<in>set pre. match_count k ?txt < match_count kws ?txt)
          \<and> (\<forall>(s, k)\<in>set post. match_count k ?txt \<le> match_count kws ?txt)
          \<and> h = str_title (str_replace (CHR ''_'') (CHR '' '') w)" by blast
  from w(1) have "(w, kws) \<in> set subs" by simp
  from table_key_title_cased [OF s this] hl w(2) have tc: "title_cased h" by simp
  then show "CHR ''_'' \<notin> set h" by (simp add: title_cased_def)
  show "\<forall>word\<in>set (str_split h). \<exists>c cs. word = c # cs \<and> is_upper c \<and> (\<forall>d\<in>set cs. is_lower d)"
  proof
    fix word
    assume "word \<in> set (str_split h)"
    with tc have "case word of [] \<Rightarrow> False | c # cs \<Rightarrow> is_upper c \<and> list_all is_lower cs"
      by (simp add: title_cased_def list_all_iff)
    then show "\<exists>c cs. word = c # cs \<and> is_upper c \<and> (\<forall>d\<in>set cs. is_lower d)"
      by (cases word) (auto simp: list_all_iff)
  qed
next
  show "hint_label ''heart_failure'' = ''Heart Failure''" by (rule hint_label_heart_failure)
qed

lemma swelling_example:
  "extract_subspecialty_hints ''Swelling and FATIGUE'' ''cardiology'' [''Edema''] = Some ''Heart Failure''"
  by code_simp

lemma heart_failure_split: "str_split ''Heart Failure'' = [''Heart'', ''Failure'']"
  by code_simp

theorem hint_is_title_cased_table_key_witness:
  "extract_subspecialty_hints ''Swelling and FATIGUE'' ''cardiology'' [''Edema''] = Some ''Heart Failure''
   \<and> CHR ''_'' \<notin> set ''Heart Failure''
   \<and> str_split ''Heart Failure'' = [''Heart'', ''Failure'']
   \<and> is_upper (CHR ''H'') \<and> is_upper (CHR ''F'')
   \<and> hint_label ''heart_failure'' = ''Heart Failure''"
proof -
  note t = hint_is_title_cased_table_key
    [of "''Swelling and FATIGUE''" "''cardiology''" "[''Edema'']" "''Heart Failure''"]
  from t swelling_example have u: "CHR ''_'' \<notin> set ''Heart Failure''"
    and v: "\<forall>word\<in>set (str_split ''Heart Failure''). \<exists>c cs. word = c # cs \<and> is_upper c \<and> (\<forall>d\<in>set cs. is_lower d)"
    by blast+
  from v have "is_upper (CHR ''H'') \<and> is_upper (CHR ''F'')"
    unfolding heart_failure_split by simp
  with t u swelling_example heart_failure_split show ?thesis by blast
qed


subsection \<open>Scoring\<close>

lemma py_round2_68: "py_round2 68 = 68"
  by (simp add: py_round2_def Let_def)

text \<open>
  Claim C2. When the specialty resolves to a department with exactly one candidate, whose
  slots are \<open>{"09:00"}\<close>, rating 4.5, experience 10, with no subspecialty label and no
  awards, and the request has preferred slot "09:00", a language the candidate does not
  speak, urgency score 50, no hint, no conditions and no age, \<open>find_best_doctor\<close> returns
  a copy of that candidate with \<open>match_score\<close> 40 + 0 + 18 + 10 = 68 and \<open>match_quality\<close>
  "fair".
\<close>

theorem single_candidate_scenario:
  assumes "resolve_department db specialty = Some \<lparr>doctors = Some [a]\<rparr>"
    and "a < length h"
    and "slots (h ! a) = Some [''09:00'']"
    and "patient_rating (h ! a) = Some (9 / 2)"
    and "experience_years (h ! a) = Some 10"
    and "sub_specialization (h ! a) = None"
    and "awards (h ! a) = None"
    and "patient_language \<notin> set (get_or (languages_spoken (h ! a)) [])"
    and "patient_conditions = None \<or> patient_conditions = Some []"
  shows "find_best_doctor db h specialty ''09:00'' patient_language 50 None None patient_conditions =
           (Some (length h),
            h @ [(h ! a)\<lparr>match_score := Some (40 + 0 + 18 + 10),
                   match_details := Some \<lparr>d_slot_match = Some ''exact'', d_language_match = Some False,
                      d_rating_score = Some (9 / 2), d_experience_years = Some 10,
                      d_sub_spec_match = None, d_has_awards = None, d_age_appropriate = None,
                      d_urgency_experience_match = None\<rparr>,
                   match_quality := Some ''fair''\<rparr>])
         \<and> slot_score (h ! a) ''09:00'' 50 = 40
         \<and> language_score (h ! a) patient_language = 0
         \<and> rating_score (h ! a) = 18
         \<and> experience_score (h ! a) = 10"
proof -
  let ?d = "h ! a"
  have f: "slot_score ?d ''09:00'' 50 = 40" "language_score ?d patient_language = 0"
    "rating_score ?d = 18" "experience_score ?d = 10"
    "sub_spec_result ?d None patient_conditions = (0, None)"
    "awards_result ?d = (0, None)"
    "age_result ?d None (str_title specialty) = (0, None)"
    "urgency_experience_result ?d 50 = (0, None)"
    "slot_match ?d ''09:00'' = ''exact''" "language_match ?d patient_language = False"
    using assms
    by (auto simp: slot_score_def slot_base_def language_score_def language_match_def
        rating_score_def experience_score_def sub_spec_result_def awards_result_def age_result_def
        urgency_experience_result_def slot_match_def get_or_def)
  have sc: "score_doctor (str_title specialty) ''09:00'' patient_language 50 None None patient_conditions ?d
      = (68, \<lparr>d_slot_match = Some ''exact'', d_language_match = Some False,
                      d_rating_score = Some (9 / 2), d_experience_years = Some 10,
                      d_sub_spec_match = None, d_has_awards = None, d_age_appropriate = None,
                      d_urgency_experience_match = None\<rparr>)"
    using assms(4,5) by (simp add: score_doctor_def f get_or_def)
  have t: "dict_truthy ?d" using assms(3) by (simp add: dict_truthy_def)
  have "find_best_doctor db h specialty ''09:00'' patient_language 50 None None patient_conditions =
           (Some (length h),
            h @ [?d\<lparr>match_score := Some 68,
                   match_details := Some \<lparr>d_slot_match = Some ''exact'', d_language_match = Some False,
                      d_rating_score = Some (9 / 2), d_experience_years = Some 10,
                      d_sub_spec_match = None, d_has_awards = None, d_age_appropriate = None,
                      d_urgency_experience_match = None\<rparr>,
                   match_quality := Some ''fair''\<rparr>])"
    using assms(1) t
    by (simp add: find_best_doctor_def get_or_def sc copy_def annotate_def py_round2_68 quality_def)
  with f show ?thesis by simp
qed

text \<open>
  Claim C3. For a candidate with slot credit (20 or 40), urgency score 69 leaves the slot
  contribution as it is and urgency score 70 multiplies it by 1.5, so the contribution is
  strictly greater at 70 than at 69, and with every other input fixed the candidate's total
  score rises by exactly half of the slot credit.
\<close>

theorem urgency_boundary_slot_multiplier:
  assumes "slot_base doctor preferred_slot \<noteq> 0"
  shows "(slot_base doctor preferred_slot = 20 \<or> slot_base doctor preferred_slot = 40)
     \<and> slot_score doctor preferred_slot 69 = slot_base doctor preferred_slot
     \<and> slot_score doctor preferred_slot 70 = slot_base doctor preferred_slot * (3 / 2)
     \<and> slot_score doctor preferred_slot 69 < slot_score doctor preferred_slot 70
     \<and> fst (score_doctor sn preferred_slot lang 70 age hint conds doctor)
         = fst (score_doctor sn preferred_slot lang 69 age hint conds doctor)
           + slot_base doctor preferred_slot / 2"
proof -
  have b: "slot_base doctor preferred_slot = 20 \<or> slot_base doctor preferred_slot = 40"
    using assms by (auto simp: slot_base_def Let_def split: if_splits)
  have u: "urgency_experience_result doctor 70 = urgency_experience_result doctor 69"
    by (simp add: urgency_experience_result_def)
  from b show ?thesis
    by (auto simp: slot_score_def score_doctor_def u)
qed

lemma scenario_resolves:
  "resolve_department scenario_db ''Cardiology'' = Some \<lparr>doctors = Some [0]\<rparr>"
  by code_simp

theorem single_candidate_scenario_witness:
  "find_best_doctor scenario_db [scenario_doctor] ''Cardiology'' ''09:00'' ''French'' 50 None None None =
     (Some 1,
      [scenario_doctor,
       scenario_doctor\<lparr>match_score := Some 68,
          match_details := Some \<lparr>d_slot_match = Some ''exact'', d_language_match = Some False,
             d_rating_score = Some (9 / 2), d_experience_years = Some 10,
             d_sub_spec_match = None, d_has_awards = None, d_age_appropriate = None,
             d_urgency_experience_match = None\<rparr>,
          match_quality := Some ''fair''\<rparr>])"
proof -
  have "''French'' \<notin> set (get_or (languages_spoken ([scenario_doctor] ! 0)) [])"
    by (simp add: scenario_doctor_def get_or_def)
  with single_candidate_scenario [of scenario_db "''Cardiology''" 0 "[scenario_doctor]" "''French''" None]
    scenario_resolves
  show ?thesis by (simp add: scenario_doctor_def)
qed

theorem urgency_boundary_slot_multiplier_witness:
  "slot_base (scenario_doctor\<lparr>slots := Some [''10:00'', ''11:00'']\<rparr>) ''09:00'' = 20
   \<and> slot_score (scenario_doctor\<lparr>slots := Some [''10:00'', ''11:00'']\<rparr>) ''09:00'' 69 = 20
   \<and> slot_score (scenario_doctor\<lparr>slots := Some [''10:00'', ''11:00'']\<rparr>) ''09:00'' 70 = 30
   \<and> slot_score scenario_doctor ''09:00'' 69 = 40
   \<and> slot_score scenario_doctor ''09:00'' 70 = 60"
proof -
  have a: "slot_base (scenario_doctor\<lparr>slots := Some [''10:00'', ''11:00'']\<rparr>) ''09:00'' = 20"
    by (simp add: slot_base_def get_or_def scenario_doctor_def)
  have b: "slot_base scenario_doctor ''09:00'' = 40"
    by (simp add: slot_base_def get_or_def scenario_doctor_def)
  from a urgency_boundary_slot_multiplier
    [of "scenario_doctor\<lparr>slots := Some [''10:00'', ''11:00'']\<rparr>" "''09:00''"]
  have "slot_score (scenario_doctor\<lparr>slots := Some [''10:00'', ''11:00'']\<rparr>) ''09:00'' 69 = 20
    \<and> slot_score (scenario_doctor\<lparr>slots := Some [''10:00'', ''11:00'']\<rparr>) ''09:00'' 70 = 30"
    by simp
  moreover from b urgency_boundary_slot_multiplier [of scenario_doctor "''09:00''"]
  have "slot_score scenario_doctor ''09:00'' 69 = 40 \<and> slot_score scenario_doctor ''09:00'' 70 = 60"
    by simp
  ultimately show ?thesis using a by blast
qed


subsection \<open>Resolution, no-match and the frame of the store\<close>









lemma score_loop_Cons:
  "score_loop sc (a # as) (bd, bs, md, h) =
     (if bs < fst (sc (h ! a))
      then score_loop sc as (Some (length h), fst (sc (h ! a)), snd (sc (h ! a)), h @ [h ! a])
      else score_loop sc as (bd, bs, md, h))"
  by (cases "sc (h ! a)") (simp add: copy_def)

lemma find_split:
  "find P xs = Some x \<Longrightarrow> \<exists>pre post. xs = pre @ x # post \<and> P x \<and> (\<forall>y\<in>set pre. \<not> P y)"
proof (induction xs)
  case Nil
  then show ?case by simp
next
  case (Cons z zs)
  show ?case
  proof (cases "P z")
    case True
    with Cons.prems have "z = x" by simp
    with True have "z # zs = [] @ x # zs \<and> P x \<and> (\<forall>y\<in>set []. \<not> P y)" by simp
    then show ?thesis by blast
  next
    case False
    with Cons.prems have "find P zs = Some x" by simp
    from Cons.IH [OF this] obtain pre post where
      "zs = pre @ x # post" "P x" "\<forall>y\<in>set pre. \<not> P y" by blast
    with False have "z # zs = (z # pre) @ x # post \<and> P x \<and> (\<forall>y\<in>set (z # pre). \<not> P y)"
      by simp
    then show ?thesis by blast
  qed
qed

lemma resolve_department_mem:
  assumes "resolve_department db specialty = Some department"
  shows "\<exists>key. (key, department) \<in> set db"
proof (cases "map_of db (str_title specialty)")
  case (Some d)
  with assms have "d = department" by (simp add: resolve_department_def)
  with Some show ?thesis by (auto dest: map_of_SomeD)
next
  case None
  with assms obtain key where "find (\<lambda>(key, department). fuzzy_match specialty key) db = Some (key, department)"
    by (auto simp: resolve_department_def split: option.splits)
  from find_split [OF this] show ?thesis by auto
qed

lemma score_loop_keeps_some:
  "\<exists>b' bs' md' h'. score_loop sc as (Some b, bs, md, h) = (Some b', bs', md', h')"
proof (induction as arbitrary: b bs md h)
  case Nil
  show ?case by simp
next
  case (Cons a as)
  show ?case
  proof (cases "fst (sc (h ! a)) > bs")
    case True
    then have "score_loop sc (a # as) (Some b, bs, md, h)
        = score_loop sc as (Some (length h), fst (sc (h ! a)), snd (sc (h ! a)), h @ [h ! a])"
      by (simp only: score_loop_Cons if_True)
    with Cons.IH show ?thesis by simp
  next
    case False
    then have "score_loop sc (a # as) (Some b, bs, md, h) = score_loop sc as (Some b, bs, md, h)"
      by (simp only: score_loop_Cons if_False)
    with Cons.IH show ?thesis by simp
  qed
qed

lemma score_loop_finds:
  assumes "as \<noteq> []" and "bs < fst (sc (h ! hd as))"
  shows "\<exists>b' bs' md' h'. score_loop sc as (None, bs, md, h) = (Some b', bs', md', h')"
proof (cases as)
  case Nil
  with assms show ?thesis by simp
next
  case (Cons a as')
  with assms have "score_loop sc as (None, bs, md, h)
        = score_loop sc as' (Some (length h), fst (sc (h ! a)), snd (sc (h ! a)), h @ [h ! a])"
    by (simp add: score_loop_Cons del: score_loop.simps)
  with score_loop_keeps_some show ?thesis by simp
qed















lemma score_loop_frame:
  assumes "\<forall>a\<in>set as. a < n" and "n \<le> length h"
    and "score_loop sc as (bd, bs, md, h) = (bd', bs', md', h')"
  shows "(\<exists>ext. h' = h @ ext)
     \<and> ((bd', bs', md') = (bd, bs, md)
        \<or> (\<exists>a\<in>set as. \<exists>b. bd' = Some b \<and> length h \<le> b \<and> b < length h'
              \<and> h' ! b = h ! a \<and> sc (h ! a) = (bs', md')))"
  using assms
proof (induction as arbitrary: bd bs md h)
  case Nil
  then show ?case by simp
next
  case (Cons a as)
  from Cons.prems(1) have an: "a < n" and asn: "\<forall>a\<in>set as. a < n" by simp_all
  show ?case
  proof (cases "bs < fst (sc (h ! a))")
    case False
    with Cons.prems(3) have "score_loop sc as (bd, bs, md, h) = (bd', bs', md', h')"
      by (simp add: score_loop_Cons del: score_loop.simps)
    from Cons.IH [OF asn Cons.prems(2) this] show ?thesis by auto
  next
    case True
    let ?h1 = "h @ [h ! a]"
    from True Cons.prems(3)
    have l: "score_loop sc as (Some (length h), fst (sc (h ! a)), snd (sc (h ! a)), ?h1)
        = (bd', bs', md', h')"
      by (simp add: score_loop_Cons del: score_loop.simps)
    from Cons.prems(2) have n1: "n \<le> length ?h1" by simp
    from Cons.IH [OF asn n1 l] obtain ext where
      ext: "h' = ?h1 @ ext"
      and alt: "(bd', bs', md') = (Some (length h), fst (sc (h ! a)), snd (sc (h ! a)))
        \<or> (\<exists>a'\<in>set as. \<exists>b. bd' = Some b \<and> length ?h1 \<le> b \<and> b < length h'
              \<and> h' ! b = ?h1 ! a' \<and> sc (?h1 ! a') = (bs', md'))" by blast
    from ext have e: "\<exists>ext. h' = h @ ext" by simp
    from alt have "\<exists>a\<in>set (a # as). \<exists>b. bd' = Some b \<and> length h \<le> b \<and> b < length h'
              \<and> h' ! b = h ! a \<and> sc (h ! a) = (bs', md')"
    proof
      assume "(bd', bs', md') = (Some (length h), fst (sc (h ! a)), snd (sc (h ! a)))"
      then have "bd' = Some (length h) \<and> length h \<le> length h \<and> length h < length h'
          \<and> h' ! length h = h ! a \<and> sc (h ! a) = (bs', md')"
        using ext by (simp add: nth_append)
      then show ?thesis by auto
    next
      assume "\<exists>a'\<in>set as. \<exists>b. bd' = Some b \<and> length ?h1 \<le> b \<and> b < length h'
              \<and> h' ! b = ?h1 ! a' \<and> sc (?h1 ! a') = (bs', md')"
      then obtain a' b where a': "a' \<in> set as" and b: "bd' = Some b" "length ?h1 \<le> b"
        "b < length h'" "h' ! b = ?h1 ! a'" "sc (?h1 ! a') = (bs', md')" by blast
      from a' asn Cons.prems(2) have "a' < length h" by auto
      then have "?h1 ! a' = h ! a'" by (simp add: nth_append)
      with a' b have "a' \<in> set (a # as) \<and> bd' = Some b \<and> length h \<le> b \<and> b < length h'
          \<and> h' ! b = h ! a' \<and> sc (h ! a') = (bs', md')" by simp
      then show ?thesis by blast
    qed
    with e show ?thesis by blast
  qed
qed


lemma score_loop_prefix:
  assumes "score_loop sc as (bd, bs, md, h) = (bd', bs', md', h')"
  shows "(\<exists>ext. h' = h @ ext) \<and> (bd' = bd \<or> (\<exists>b. bd' = Some b \<and> length h \<le> b \<and> b < length h'))"
  using assms
proof (induction as arbitrary: bd bs md h)
  case Nil
  then show ?case by simp
next
  case (Cons a as)
  show ?case
  proof (cases "bs < fst (sc (h ! a))")
    case False
    with Cons.prems have "score_loop sc as (bd, bs, md, h) = (bd', bs', md', h')"
      by (simp add: score_loop_Cons del: score_loop.simps)
    from Cons.IH [OF this] show ?thesis .
  next
    case True
    let ?h1 = "h @ [h ! a]"
    from True Cons.prems
    have "score_loop sc as (Some (length h), fst (sc (h ! a)), snd (sc (h ! a)), ?h1)
        = (bd', bs', md', h')"
      by (simp add: score_loop_Cons del: score_loop.simps)
    from Cons.IH [OF this] obtain ext where
      ext: "h' = ?h1 @ ext"
      and alt: "bd' = Some (length h) \<or> (\<exists>b. bd' = Some b \<and> length ?h1 \<le> b \<and> b < length h')"
      by blast
    from ext have "\<exists>ext. h' = h @ ext" by simp
    moreover from alt ext have "\<exists>b. bd' = Some b \<and> length h \<le> b \<and> b < length h'"
      by auto
    ultimately show ?thesis by blast
  qed
qed

lemma annotate_frame:
  assumes "annotate (bd, bs, md, h1) = (r, h')"
  shows "r = bd \<and> length h' = length h1 \<and> (\<forall>a. bd \<noteq> Some a \<longrightarrow> h' ! a = h1 ! a)"
  using assms by (auto simp: annotate_def split: option.splits if_splits)

lemma annotate_winner:
  assumes "annotate (Some b, bs, md, h1) = (r, h')" and "b < length h1"
  shows "h' ! b = (if dict_truthy (h1 ! b)
                   then (h1 ! b)\<lparr>match_score := Some (py_round2 bs), match_details := Some md,
                                 match_quality := Some (quality bs)\<rparr>
                   else h1 ! b)"
  using assms by (auto simp: annotate_def split: if_splits)

lemma catalog_refs_okD:
  assumes "catalog_refs_ok db h" and "(key, department) \<in> set db"
    and "a \<in> set (get_or (doctors department) [])"
  shows "a < length h"
  using assms by (auto simp: catalog_refs_ok_def list_all_iff)

text \<open>
  Claim C9. \<open>find_best_doctor\<close> never writes to an object that existed before the call:
  the store only grows, every old address holds the object it held, so every entry of the
  catalog reads as before. A returned winner is a new address, and the object there is a
  copy of a candidate of the resolved department carrying the rounded total score, the
  per-factor details and the quality tier (the copy of an empty object is left bare, as
  \<open>if best_doctor:\<close> skips it). The catalog itself, the lists of addresses by key, is a
  value the function only reads.
\<close>

theorem find_best_doctor_leaves_catalog_unchanged:
  assumes "find_best_doctor db h specialty ps lang u age hint conds = (r, h')"
  shows "length h \<le> length h'
    \<and> (\<forall>a<length h. h' ! a = h ! a)
    \<and> (\<forall>b. r = Some b \<longrightarrow> length h \<le> b \<and> b < length h')
    \<and> (catalog_refs_ok db h \<longrightarrow>
         (\<forall>(key, department)\<in>set db. \<forall>a\<in>set (get_or (doctors department) []).
             a < length h' \<and> h' ! a = h ! a)
         \<and> (\<forall>b. r = Some b \<longrightarrow>
              (\<exists>department. resolve_department db specialty = Some department
                 \<and> (\<exists>a\<in>set (get_or (doctors department) []).
                      h' ! b =
                        (if dict_truthy (h ! a)
                         then (h ! a)\<lparr>match_score := Some (py_round2 (fst
                                   (score_doctor (str_title specialty) ps lang u age hint conds (h ! a)))),
                                 match_details := Some (snd
                                   (score_doctor (str_title specialty) ps lang u age hint conds (h ! a))),
                                 match_quality := Some (quality (fst
                                   (score_doctor (str_title specialty) ps lang u age hint conds (h ! a))))\<rparr>
                         else h ! a)))))"
proof (cases "resolve_department db specialty")
  case None
  with assms have "r = None" "h' = h" by (simp_all add: find_best_doctor_def)
  then show ?thesis by (auto dest: catalog_refs_okD)
next
  case (Some department)
  let ?ds = "get_or (doctors department) []"
  let ?sc = "score_doctor (str_title specialty) ps lang u age hint conds"
  show ?thesis
  proof (cases "?ds = []")
    case True
    with Some assms have "r = None" "h' = h" by (simp_all add: find_best_doctor_def)
    then show ?thesis by (auto dest: catalog_refs_okD)
  next
    case False
    obtain bd bs md h1 where l: "score_loop ?sc ?ds (None, - 1, empty_details, h) = (bd, bs, md, h1)"
      by (cases "score_loop ?sc ?ds (None, - 1, empty_details, h)") auto
    with Some False assms have an: "annotate (bd, bs, md, h1) = (r, h')"
      by (simp add: find_best_doctor_def)
    from annotate_frame [OF an] have r: "r = bd" and len: "length h' = length h1"
      and fr: "\<forall>a. bd \<noteq> Some a \<longrightarrow> h' ! a = h1 ! a" by blast+
    from score_loop_prefix [OF l] obtain ext where ext: "h1 = h @ ext"
      and bd: "bd = None \<or> (\<exists>b. bd = Some b \<and> length h \<le> b \<and> b < length h1)" by blast
    have p1: "length h \<le> length h'" using len ext by simp
    have p2: "\<forall>a<length h. h' ! a = h ! a"
    proof (intro allI impI)
      fix a assume a: "a < length h"
      with bd have "bd \<noteq> Some a" by auto
      with fr have "h' ! a = h1 ! a" by blast
      with a ext show "h' ! a = h ! a" by (simp add: nth_append)
    qed
    have p3: "\<forall>b. r = Some b \<longrightarrow> length h \<le> b \<and> b < length h'"
      using bd r len by auto
    have p4: "catalog_refs_ok db h \<Longrightarrow>
         (\<forall>(key, department)\<in>set db. \<forall>a\<in>set (get_or (doctors department) []).
             a < length h' \<and> h' ! a = h ! a)"
      using p1 p2 by (fastforce dest: catalog_refs_okD)
    have p5: "\<exists>department. resolve_department db specialty = Some department
                 \<and> (\<exists>a\<in>set (get_or (doctors department) []).
                      h' ! b =
                        (if dict_truthy (h ! a)
                         then (h ! a)\<lparr>match_score := Some (py_round2 (fst (?sc (h ! a)))),
                                 match_details := Some (snd (?sc (h ! a))),
                                 match_quality := Some (quality (fst (?sc (h ! a))))\<rparr>
                         else h ! a))"
      if ok: "catalog_refs_ok db h" and rb: "r = Some b" for b
    proof -
      from resolve_department_mem [OF Some] obtain key where "(key, department) \<in> set db" ..
      with ok have v: "\<forall>a\<in>set ?ds. a < length h" by (blast dest: catalog_refs_okD)
      from rb r have bdb: "bd = Some b" by simp
      from score_loop_frame [OF v order_refl l] bdb obtain a where
        a: "a \<in> set ?ds" "length h \<le> b" "b < length h1" "h1 ! b = h ! a" "?sc (h ! a) = (bs, md)"
        by auto
      from an bdb have "annotate (Some b, bs, md, h1) = (r, h')" by simp
      from annotate_winner [OF this a(3)] a(4,5)
      have "h' ! b =
                        (if dict_truthy (h ! a)
                         then (h ! a)\<lparr>match_score := Some (py_round2 (fst (?sc (h ! a)))),
                                 match_details := Some (snd (?sc (h ! a))),
                                 match_quality := Some (quality (fst (?sc (h ! a))))\<rparr>
                         else h ! a)" by simp
      with a(1) Some show ?thesis by blast
    qed
    from p1 p2 p3 p4 p5 show ?thesis by blast
  qed
qed

theorem find_best_doctor_leaves_catalog_unchanged_witness:
  "catalog_refs_ok scenario_db [scenario_doctor]
   \<and> find_best_doctor scenario_db [scenario_doctor] ''Cardiology'' ''09:00'' ''English'' 50 None None None
       = (Some 1, [scenario_doctor,
            scenario_doctor\<lparr>match_score := Some 93,
              match_details := Some \<lparr>d_slot_match = Some ''exact'', d_language_match = Some True,
                 d_rating_score = Some (9 / 2), d_experience_years = Some 10,
                 d_sub_spec_match = None, d_has_awards = None, d_age_appropriate = None,
                 d_urgency_experience_match = None\<rparr>,
              match_quality := Some ''good''\<rparr>])
   \<and> [scenario_doctor,
            scenario_doctor\<lparr>match_score := Some 93,
              match_details := Some \<lparr>d_slot_match = Some ''exact'', d_language_match = Some True,
                 d_rating_score = Some (9 / 2), d_experience_years = Some 10,
                 d_sub_spec_match = None, d_has_awards = None, d_age_appropriate = None,
                 d_urgency_experience_match = None\<rparr>,
              match_quality := Some ''good''\<rparr>] ! 0 = [scenario_doctor] ! 0"
proof -
  let ?h' = "[scenario_doctor,
            scenario_doctor\<lparr>match_score := Some 93,
              match_details := Some \<lparr>d_slot_match = Some ''exact'', d_language_match = Some True,
                 d_rating_score = Some (9 / 2), d_experience_years = Some 10,
                 d_sub_spec_match = None, d_has_awards = None, d_age_appropriate = None,
                 d_urgency_experience_match = None\<rparr>,
              match_quality := Some ''good''\<rparr>]"
  have ok: "catalog_refs_ok scenario_db [scenario_doctor]"
    by (simp add: catalog_refs_ok_def scenario_db_def get_or_def)
  have f: "find_best_doctor scenario_db [scenario_doctor] ''Cardiology'' ''09:00'' ''English'' 50 None None None
       = (Some 1, ?h')"
    by code_simp
  from find_best_doctor_leaves_catalog_unchanged [OF f]
  have "\<forall>a<length [scenario_doctor]. ?h' ! a = [scenario_doctor] ! a" by blast
  then have "?h' ! 0 = [scenario_doctor] ! 0" by simp
  with ok f show ?thesis by blast
qed


subsection \<open>The pipeline\<close>

lemma process_patient_fields:
  "gemini (fst (process_patient st db h p)) = contained (analyze_symptoms st p)"
  "grok (fst (process_patient st db h p)) =
     contained (calculate_urgency st p (contained (analyze_symptoms st p)))"
  "o4mini (fst (process_patient st db h p)) =
     contained (final_evaluation st p (contained (analyze_symptoms st p))
       (contained (calculate_urgency st p (contained (analyze_symptoms st p)))))"
  "r_patient (fst (process_patient st db h p)) = p"
  by (simp_all add: process_patient_def Let_def split: prod.splits)

lemma process_patient_matched:
  "matched_doctor (fst (process_patient st db h p)) =
     (case call_matcher db h
             (matching_arguments p (contained (analyze_symptoms st p))
                (contained (calculate_urgency st p (contained (analyze_symptoms st p))))
                (contained (final_evaluation st p (contained (analyze_symptoms st p))
                   (contained (calculate_urgency st p (contained (analyze_symptoms st p))))))) of
        Inl e \<Rightarrow> None
      | Inr found \<Rightarrow> fst found)"
  by (simp add: process_patient_def Let_def split: prod.splits sum.splits)

text \<open>
  Claim C4, as amended. The orchestrator calls the matcher with: the specialty from the
  evaluation stage's \<open>final_specialty\<close>, falling back to the mapping stage's
  \<open>primary_specialty\<close> when that key is absent; as hint the first entry of the
  \<^emph>\<open>mapping\<close> stage's \<open>potential_conditions\<close> when that list is present and non-empty, and
  no hint otherwise; and the urgency stage's \<open>urgency_score\<close>, 50 when absent. The
  matched doctor of \<open>process_patient\<close> is the result of that call.
\<close>

theorem matching_arguments_from_stages:
  "arg_specialty (matching_arguments p g k ev) =
      (case a_final_specialty ev of Some s \<Rightarrow> Some s | None \<Rightarrow> a_primary_specialty g)
   \<and> arg_sub_specialization_hint (matching_arguments p g k ev) =
      (case a_potential_conditions g of
         None \<Rightarrow> None
       | Some [] \<Rightarrow> None
       | Some (c # cs) \<Rightarrow> Some c)
   \<and> arg_urgency_score (matching_arguments p g k ev) =
      (case a_urgency_score k of Some n \<Rightarrow> n | None \<Rightarrow> 50)
   \<and> (\<forall>s. arg_specialty (matching_arguments p g k ev) = Some s \<longrightarrow>
         call_matcher db h (matching_arguments p g k ev) =
           Inr (find_best_doctor db h s (arg_preferred_slot (matching_arguments p g k ev))
                  (arg_patient_language (matching_arguments p g k ev))
                  (arg_urgency_score (matching_arguments p g k ev))
                  (arg_patient_age (matching_arguments p g k ev))
                  (arg_sub_specialization_hint (matching_arguments p g k ev))
                  (arg_patient_conditions (matching_arguments p g k ev))))
   \<and> matched_doctor (fst (process_patient st db h p)) =
        (case call_matcher db h
                (matching_arguments p (gemini (fst (process_patient st db h p)))
                   (grok (fst (process_patient st db h p))) (o4mini (fst (process_patient st db h p)))) of
           Inl e \<Rightarrow> None
         | Inr found \<Rightarrow> fst found)"
proof (intro conjI allI impI)
  show "arg_specialty (matching_arguments p g k ev) =
      (case a_final_specialty ev of Some s \<Rightarrow> Some s | None \<Rightarrow> a_primary_specialty g)"
    by (simp add: matching_arguments_def Let_def)
  show "arg_sub_specialization_hint (matching_arguments p g k ev) =
      (case a_potential_conditions g of None \<Rightarrow> None | Some [] \<Rightarrow> None | Some (c # cs) \<Rightarrow> Some c)"
    by (simp add: matching_arguments_def Let_def get_or_def split: option.splits)
  show "arg_urgency_score (matching_arguments p g k ev) =
      (case a_urgency_score k of Some n \<Rightarrow> n | None \<Rightarrow> 50)"
    by (simp add: matching_arguments_def Let_def get_or_def split: option.splits)
  show "matched_doctor (fst (process_patient st db h p)) =
        (case call_matcher db h
                (matching_arguments p (gemini (fst (process_patient st db h p)))
                   (grok (fst (process_patient st db h p))) (o4mini (fst (process_patient st db h p)))) of
           Inl e \<Rightarrow> None
         | Inr found \<Rightarrow> fst found)"
    by (simp only: process_patient_fields process_patient_matched)
next
  fix s
  assume "arg_specialty (matching_arguments p g k ev) = Some s"
  then show "call_matcher db h (matching_arguments p g k ev) =
           Inr (find_best_doctor db h s (arg_preferred_slot (matching_arguments p g k ev))
                  (arg_patient_language (matching_arguments p g k ev))
                  (arg_urgency_score (matching_arguments p g k ev))
                  (arg_patient_age (matching_arguments p g k ev))
                  (arg_sub_specialization_hint (matching_arguments p g k ev))
                  (arg_patient_conditions (matching_arguments p g k ev)))"
    by (simp add: call_matcher_def)
qed

text \<open>
  Claim C4 as stated takes the hint from the evaluation stage's list. With a
  potential-conditions list only in the evaluation result, no hint is passed.
\<close>

theorem hint_from_evaluation_counterexample:
  "arg_sub_specialization_hint
      (matching_arguments
         \<lparr>p_name = None, p_age = None, p_preferred_language = None, p_preferred_slot = None,
          p_symptoms = None, p_pre_existing_conditions = None\<rparr>
         \<lparr>a_error = None, a_primary_specialty = Some ''Cardiology'',
          a_potential_conditions = None, a_urgency_score = None, a_final_specialty = None\<rparr>
         \<lparr>a_error = None, a_primary_specialty = None,
          a_potential_conditions = None, a_urgency_score = Some 60, a_final_specialty = None\<rparr>
         \<lparr>a_error = None, a_primary_specialty = None,
          a_potential_conditions = Some [''Angina''], a_urgency_score = None,
          a_final_specialty = Some ''Cardiology''\<rparr>)
    \<noteq> Some ''Angina''"
  by (simp add: matching_arguments_def get_or_def)


theorem matching_arguments_from_stages_witness:
  "arg_specialty (matching_arguments bare_patient
       (empty_analysis\<lparr>a_primary_specialty := Some ''Cardiology'',
                        a_potential_conditions := Some [''Angina'', ''Reflux'']\<rparr>)
       empty_analysis empty_analysis) = Some ''Cardiology''
   \<and> arg_sub_specialization_hint (matching_arguments bare_patient
       (empty_analysis\<lparr>a_primary_specialty := Some ''Cardiology'',
                        a_potential_conditions := Some [''Angina'', ''Reflux'']\<rparr>)
       empty_analysis empty_analysis) = Some ''Angina''
   \<and> arg_urgency_score (matching_arguments bare_patient
       (empty_analysis\<lparr>a_primary_specialty := Some ''Cardiology'',
                        a_potential_conditions := Some [''Angina'', ''Reflux'']\<rparr>)
       empty_analysis empty_analysis) = 50"
  using matching_arguments_from_stages [of bare_patient
       "empty_analysis\<lparr>a_primary_specialty := Some ''Cardiology'',
                        a_potential_conditions := Some [''Angina'', ''Reflux'']\<rparr>"
       empty_analysis empty_analysis]
  by (simp add: empty_analysis_def)

lemma run_patients_length:
  "length (fst (run_patients st db ps (rs, h))) = length rs + length ps"
proof (induction ps arbitrary: rs h)
  case Nil
  show ?case by simp
next
  case (Cons p ps)
  obtain r h' where r: "process_patient st db h p = (r, h')" by (cases "process_patient st db h p")
  then have "run_patients st db (p # ps) (rs, h) = run_patients st db ps (rs @ [r], h')" by simp
  with Cons.IH [of "rs @ [r]" h'] show ?case by simp
qed

text \<open>
  Stage-failure containment on the orchestrator's own path: \<open>run\<close> produces one record
  per patient; a stage that raises leaves its error placeholder in the record, the later
  stages run on the placeholder and the matching step still runs.
\<close>

theorem orchestrator_contains_stage_failures:
  "length (fst (run_patients st db ps ([], h))) = length ps
   \<and> (\<forall>e. analyze_symptoms st p = Inl e \<longrightarrow>
         gemini (fst (process_patient st db h p)) = error_placeholder e)
   \<and> (\<forall>e. calculate_urgency st p (gemini (fst (process_patient st db h p))) = Inl e \<longrightarrow>
         grok (fst (process_patient st db h p)) = error_placeholder e)
   \<and> (\<forall>e. final_evaluation st p (gemini (fst (process_patient st db h p)))
              (grok (fst (process_patient st db h p))) = Inl e \<longrightarrow>
         o4mini (fst (process_patient st db h p)) = error_placeholder e)
   \<and> o4mini (fst (process_patient st db h p)) =
        contained (final_evaluation st p (gemini (fst (process_patient st db h p)))
                     (grok (fst (process_patient st db h p))))
   \<and> matched_doctor (fst (process_patient st db h p)) =
        (case call_matcher db h
                (matching_arguments p (gemini (fst (process_patient st db h p)))
                   (grok (fst (process_patient st db h p))) (o4mini (fst (process_patient st db h p)))) of
           Inl e \<Rightarrow> None
         | Inr found \<Rightarrow> fst found)"
proof (intro conjI allI impI)
  show "length (fst (run_patients st db ps ([], h))) = length ps"
    using run_patients_length [of st db ps "[]" h] by simp
  show "o4mini (fst (process_patient st db h p)) =
        contained (final_evaluation st p (gemini (fst (process_patient st db h p)))
                     (grok (fst (process_patient st db h p))))"
    by (simp only: process_patient_fields)
  show "matched_doctor (fst (process_patient st db h p)) =
        (case call_matcher db h
                (matching_arguments p (gemini (fst (process_patient st db h p)))
                   (grok (fst (process_patient st db h p))) (o4mini (fst (process_patient st db h p)))) of
           Inl e \<Rightarrow> None
         | Inr found \<Rightarrow> fst found)"
    by (simp only: process_patient_fields process_patient_matched)
next
  fix e assume "analyze_symptoms st p = Inl e"
  then show "gemini (fst (process_patient st db h p)) = error_placeholder e"
    by (simp add: process_patient_fields contained_def)
next
  fix e assume "calculate_urgency st p (gemini (fst (process_patient st db h p))) = Inl e"
  then show "grok (fst (process_patient st db h p)) = error_placeholder e"
    by (simp add: process_patient_fields contained_def)
next
  fix e assume "final_evaluation st p (gemini (fst (process_patient st db h p)))
              (grok (fst (process_patient st db h p))) = Inl e"
  then show "o4mini (fst (process_patient st db h p)) = error_placeholder e"
    by (simp add: process_patient_fields contained_def)
qed

lemma urgency_fails_record:
  "fst (process_patient urgency_fails scenario_db [scenario_doctor] bare_patient) =
     \<lparr>r_patient = bare_patient,
      gemini = empty_analysis\<lparr>a_primary_specialty := Some ''Cardiology''\<rparr>,
      grok = error_placeholder ''timeout'',
      o4mini = empty_analysis\<lparr>a_final_specialty := Some ''Cardiology''\<rparr>,
      matched_doctor = Some 1\<rparr>"
  by code_simp

theorem orchestrator_contains_stage_failures_witness:
  "calculate_urgency urgency_fails bare_patient
       (gemini (fst (process_patient urgency_fails scenario_db [scenario_doctor] bare_patient)))
     = Inl ''timeout''
   \<and> grok (fst (process_patient urgency_fails scenario_db [scenario_doctor] bare_patient))
     = error_placeholder ''timeout''
   \<and> a_final_specialty (o4mini (fst (process_patient urgency_fails scenario_db [scenario_doctor] bare_patient)))
     = Some ''Cardiology''
   \<and> matched_doctor (fst (process_patient urgency_fails scenario_db [scenario_doctor] bare_patient))
     = Some 1
   \<and> length (fst (run_patients urgency_fails scenario_db [bare_patient, bare_patient]
                    ([], [scenario_doctor]))) = 2"
proof -
  note t = orchestrator_contains_stage_failures
    [of urgency_fails scenario_db "[bare_patient, bare_patient]" "[scenario_doctor]" bare_patient]
  have c: "calculate_urgency urgency_fails bare_patient
       (gemini (fst (process_patient urgency_fails scenario_db [scenario_doctor] bare_patient)))
     = Inl ''timeout''" by (simp add: urgency_fails_def)
  with t have "grok (fst (process_patient urgency_fails scenario_db [scenario_doctor] bare_patient))
     = error_placeholder ''timeout''" by blast
  moreover from t have "length (fst (run_patients urgency_fails scenario_db [bare_patient, bare_patient]
                    ([], [scenario_doctor]))) = 2" by simp
  moreover have "a_final_specialty (o4mini (fst (process_patient urgency_fails scenario_db [scenario_doctor] bare_patient)))
     = Some ''Cardiology''"
    by (simp add: urgency_fails_record empty_analysis_def)
  moreover have "matched_doctor (fst (process_patient urgency_fails scenario_db [scenario_doctor] bare_patient))
     = Some 1" by (simp add: urgency_fails_record)
  ultimately show ?thesis using c by blast
qed

text \<open>
  Claim C1 at its failing input. The web runner's loop processes two patients with an
  urgency stage that raises: the loop ends with the exception at the first patient and
  appends no record, where the orchestrator's loop yields two.
\<close>

theorem web_runner_aborts_on_stage_failure:
  "triage_loop urgency_fails scenario_db [bare_patient, bare_patient] ([], [scenario_doctor])
     = (Some ''timeout'', [], [scenario_doctor])
   \<and> length (fst (snd (triage_loop urgency_fails scenario_db [bare_patient, bare_patient]
                          ([], [scenario_doctor])))) = 0
   \<and> length (fst (run_patients urgency_fails scenario_db [bare_patient, bare_patient]
                    ([], [scenario_doctor]))) = 2"
proof -
  have "triage_loop urgency_fails scenario_db [bare_patient, bare_patient] ([], [scenario_doctor])
     = (Some ''timeout'', [], [scenario_doctor])"
    by (simp add: urgency_fails_def)
  then show ?thesis using run_patients_length [of urgency_fails scenario_db "[bare_patient, bare_patient]" "[]" "[scenario_doctor]"]
    by simp
qed

subsection \<open>Run status\<close>

lemma drop_at_update: "drop_at i (xs[i := x]) = drop_at i xs"
  by (simp add: drop_at_def)

lemma run_triage_background_clears:
  "is_running (fst (run_triage_background env st db h f status)) = False"
  by (simp add: run_triage_background_def split: prod.splits)

lemma start_triage_rejects:
  "is_running status \<Longrightarrow>
     start_triage default_file status req = (Responded False ''Triage already running'', status, None)"
  by (simp add: start_triage_def)

lemma start_triage_accepts:
  assumes "\<not> is_running status" and "body req = Object given" and "thread_start_fails req = None"
  shows "start_triage default_file status req =
     (Responded True ''Triage process started'', fresh_status, Some (get_or given default_file))"
  using assms by (simp add: start_triage_def)

lemma handler_check_set:
  assumes "i < length (w_handlers w)" and "w_handlers w ! i = At_check req"
    and "is_running (w_status w)"
  shows "web_step env st db default_file w (Handler i) =
     Some (w\<lparr>w_handlers := drop_at i (w_handlers w),
             w_log := w_log w @ [Responded False ''Triage already running'']\<rparr>)"
  using assms by (simp add: web_step_def handler_step_def)

lemma handler_check_clear:
  assumes "i < length (w_handlers w)" and "w_handlers w ! i = At_check req"
    and "\<not> is_running (w_status w)"
  shows "web_step env st db default_file w (Handler i) =
     Some (w\<lparr>w_handlers := (w_handlers w)[i := At_reset req]\<rparr>)"
  using assms by (simp add: web_step_def handler_step_def)

lemma handler_reset:
  assumes "i < length (w_handlers w)" and "w_handlers w ! i = At_reset req"
  shows "web_step env st db default_file w (Handler i) =
     Some (w\<lparr>w_status := fresh_status, w_handlers := (w_handlers w)[i := At_parse req]\<rparr>)"
  using assms by (simp add: web_step_def handler_step_def)

lemma handler_parse_object:
  assumes "i < length (w_handlers w)" and "w_handlers w ! i = At_parse req"
    and "body req = Object given"
  shows "web_step env st db default_file w (Handler i) =
     Some (w\<lparr>w_handlers := (w_handlers w)[i := At_spawn req (get_or given default_file)]\<rparr>)"
  using assms by (simp add: web_step_def handler_step_def)

lemma handler_spawn_ok:
  assumes "i < length (w_handlers w)" and "w_handlers w ! i = At_spawn req f"
    and "thread_start_fails req = None"
  shows "web_step env st db default_file w (Handler i) =
     Some (w\<lparr>w_handlers := drop_at i (w_handlers w), w_runs := w_runs w @ [At_begin f],
             w_log := w_log w @ [Responded True ''Triage process started'']\<rparr>)"
  using assms by (simp add: web_step_def handler_step_def)

lemma accepted_request_starts_run:
  assumes i: "i < length (w_handlers w)" and c: "w_handlers w ! i = At_check req"
    and n: "\<not> is_running (w_status w)"
    and b: "body req = Object given" and t: "thread_start_fails req = None"
  shows "web_run env st db default_file w [Handler i, Handler i, Handler i, Handler i] =
     Some (w\<lparr>w_status := fresh_status, w_handlers := drop_at i (w_handlers w),
             w_runs := w_runs w @ [At_begin (get_or given default_file)],
             w_log := w_log w @ [Responded True ''Triage process started'']\<rparr>)"
proof -
  let ?w1 = "w\<lparr>w_handlers := (w_handlers w)[i := At_reset req]\<rparr>"
  let ?w2 = "?w1\<lparr>w_status := fresh_status, w_handlers := (w_handlers ?w1)[i := At_parse req]\<rparr>"
  let ?w3 = "?w2\<lparr>w_handlers := (w_handlers ?w2)[i := At_spawn req (get_or given default_file)]\<rparr>"
  let ?w4 = "?w3\<lparr>w_handlers := drop_at i (w_handlers ?w3),
                  w_runs := w_runs ?w3 @ [At_begin (get_or given default_file)],
                  w_log := w_log ?w3 @ [Responded True ''Triage process started'']\<rparr>"
  have s1: "web_step env st db default_file w (Handler i) = Some ?w1"
    using i c n by (rule handler_check_clear)
  have s2: "web_step env st db default_file ?w1 (Handler i) = Some ?w2"
    by (rule handler_reset) (use i in simp_all)
  have s3: "web_step env st db default_file ?w2 (Handler i) = Some ?w3"
    by (rule handler_parse_object [OF _ _ b]) (use i in simp_all)
  have s4: "web_step env st db default_file ?w3 (Handler i) = Some ?w4"
    by (rule handler_spawn_ok [OF _ _ t]) (use i in simp_all)
  have "web_run env st db default_file w [Handler i, Handler i, Handler i, Handler i] = Some ?w4"
    by (simp only: web_run.simps s1 s2 s3 s4 option.case)
  also have "?w4 = w\<lparr>w_status := fresh_status, w_handlers := drop_at i (w_handlers w),
             w_runs := w_runs w @ [At_begin (get_or given default_file)],
             w_log := w_log w @ [Responded True ''Triage process started'']\<rparr>"
    by (simp add: drop_at_update)
  finally show ?thesis .
qed

lemma run_begin:
  assumes "j < length (w_runs w)" and "w_runs w ! j = At_begin f"
  shows "web_step env st db default_file w (Run j) =
     Some (w\<lparr>w_status := (w_status w)\<lparr>is_running := True, current_step := ''initializing''\<rparr>,
             w_runs := (w_runs w)[j := At_body f]\<rparr>)"
  using assms by (simp add: web_step_def run_step_def)

lemma run_body:
  assumes "j < length (w_runs w)" and "w_runs w ! j = At_body f"
    and "try_rest env st db (w_store w) f (w_status w) = (raised, status', h')"
  shows "web_step env st db default_file w (Run j) =
     Some (w\<lparr>w_status := (case raised of
                               Some e \<Rightarrow> status'\<lparr>current_step := ''error''\<rparr>
                             | None \<Rightarrow> status'),
             w_store := h', w_runs := (w_runs w)[j := At_finally]\<rparr>)"
  using assms by (simp add: web_step_def run_step_def)

lemma run_finally:
  assumes "j < length (w_runs w)" and "w_runs w ! j = At_finally"
  shows "web_step env st db default_file w (Run j) =
     Some (w\<lparr>w_status := (w_status w)\<lparr>is_running := False\<rparr>, w_runs := drop_at j (w_runs w)\<rparr>)"
  using assms by (simp add: web_step_def run_step_def)

lemma try_rest_keeps_flag:
  "is_running (fst (snd (try_rest env st db h f status))) = is_running status"
  by (simp add: try_rest_def Let_def split: option.splits sum.splits prod.splits)

lemma run_body_keeps_flag:
  assumes "j < length (w_runs w)" and "w_runs w ! j = At_body f"
  shows "\<exists>w'. web_step env st db default_file w (Run j) = Some w'
     \<and> is_running (w_status w') = is_running (w_status w)
     \<and> w_runs w' = (w_runs w)[j := At_finally]"
proof -
  obtain raised status' h' where
    r: "try_rest env st db (w_store w) f (w_status w) = (raised, status', h')"
    by (cases "try_rest env st db (w_store w) f (w_status w)")
  from try_rest_keeps_flag [of env st db "w_store w" f "w_status w"] r
  have k: "is_running status' = is_running (w_status w)" by simp
  let ?w' = "w\<lparr>w_status := (case raised of
                               Some e \<Rightarrow> status'\<lparr>current_step := ''error''\<rparr>
                             | None \<Rightarrow> status'),
             w_store := h', w_runs := (w_runs w)[j := At_finally]\<rparr>"
  have "web_step env st db default_file w (Run j) = Some ?w'"
    using assms r by (rule run_body)
  moreover have "is_running (w_status ?w') = is_running (w_status w)"
    using k by (cases raised) simp_all
  moreover have "w_runs ?w' = (w_runs w)[j := At_finally]" by simp
  ultimately show ?thesis by blast
qed

lemma run_in_isolation:
  assumes j: "j < length (w_runs w)" and b: "w_runs w ! j = At_begin f"
  shows "\<exists>w'. web_run env st db default_file w [Run j, Run j, Run j] = Some w'
     \<and> (w_status w', w_store w') = run_triage_background env st db (w_store w) f (w_status w)
     \<and> w_runs w' = drop_at j (w_runs w)"
proof -
  let ?s1 = "(w_status w)\<lparr>is_running := True, current_step := ''initializing''\<rparr>"
  let ?w1 = "w\<lparr>w_status := ?s1, w_runs := (w_runs w)[j := At_body f]\<rparr>"
  obtain raised status' h' where
    r: "try_rest env st db (w_store w) f ?s1 = (raised, status', h')"
    by (cases "try_rest env st db (w_store w) f ?s1")
  let ?handled = "case raised of Some e \<Rightarrow> status'\<lparr>current_step := ''error''\<rparr> | None \<Rightarrow> status'"
  let ?w2 = "?w1\<lparr>w_status := ?handled, w_store := h', w_runs := (w_runs ?w1)[j := At_finally]\<rparr>"
  let ?w3 = "?w2\<lparr>w_status := (w_status ?w2)\<lparr>is_running := False\<rparr>, w_runs := drop_at j (w_runs ?w2)\<rparr>"
  have s1: "web_step env st db default_file w (Run j) = Some ?w1"
    using j b by (rule run_begin)
  have s2: "web_step env st db default_file ?w1 (Run j) = Some ?w2"
    by (rule run_body) (use j r in simp_all)
  have s3: "web_step env st db default_file ?w2 (Run j) = Some ?w3"
    by (rule run_finally) (use j in simp_all)
  have w: "web_run env st db default_file w [Run j, Run j, Run j] = Some ?w3"
    by (simp only: web_run.simps s1 s2 s3 option.case)
  have "run_triage_background env st db (w_store w) f (w_status w)
      = (?handled\<lparr>is_running := False\<rparr>, h')"
    using r by (simp add: run_triage_background_def try_block_def)
  then have "(w_status ?w3, w_store ?w3) = run_triage_background env st db (w_store w) f (w_status w)"
    by simp
  moreover have "w_runs ?w3 = drop_at j (w_runs w)" by (simp add: drop_at_update)
  ultimately show ?thesis using w by blast
qed


text \<open>
  Claim C8. A start request that finds the run-status flag set is rejected: the handler
  answers "already running", the status is left as it is and no background run is added.
  This holds of \<open>start_triage\<close> run alone and of the handler's check among any other
  threads. A background run always has a next step: its first step sets the flag, the rest
  of its \<open>try\<close> block with the \<open>except\<close> handler leaves the flag as it is and reaches
  \<open>finally\<close> whether the block raised or not, and \<open>finally\<close> clears the flag and ends the
  run. In the state \<open>finally\<close> leaves, every waiting start request passes the check, and
  one with a well-formed body whose thread starts goes on to add a run. The three steps of
  a run, taken together, are \<open>run_triage_background\<close>, which leaves the flag clear, so that
  \<open>start_triage\<close> then starts a run.
\<close>

theorem single_run_and_clean_exit:
  "(is_running status \<longrightarrow>
      start_triage default_file status req =
        (Responded False ''Triage already running'', status, None))
   \<and> (\<forall>i. i < length (w_handlers w) \<and> w_handlers w ! i = At_check req \<and> is_running (w_status w) \<longrightarrow>
        web_step env st db default_file w (Handler i) =
          Some (w\<lparr>w_handlers := drop_at i (w_handlers w),
                  w_log := w_log w @ [Responded False ''Triage already running'']\<rparr>))
   \<and> (\<forall>j f. j < length (w_runs w) \<and> w_runs w ! j = At_begin f \<longrightarrow>
        (\<exists>w'. web_step env st db default_file w (Run j) = Some w'
           \<and> is_running (w_status w') \<and> w_runs w' = (w_runs w)[j := At_body f]))
   \<and> (\<forall>j f. j < length (w_runs w) \<and> w_runs w ! j = At_body f \<longrightarrow>
        (\<exists>w'. web_step env st db default_file w (Run j) = Some w'
           \<and> is_running (w_status w') = is_running (w_status w)
           \<and> w_runs w' = (w_runs w)[j := At_finally]))
   \<and> (\<forall>j. j < length (w_runs w) \<and> w_runs w ! j = At_finally \<longrightarrow>
        (\<exists>w'. web_step env st db default_file w (Run j) = Some w'
           \<and> \<not> is_running (w_status w') \<and> w_runs w' = drop_at j (w_runs w)
           \<and> w_handlers w' = w_handlers w
           \<and> (\<forall>i r. i < length (w_handlers w') \<and> w_handlers w' ! i = At_check r \<longrightarrow>
                 web_step env st db default_file w' (Handler i) =
                   Some (w'\<lparr>w_handlers := (w_handlers w')[i := At_reset r]\<rparr>))
           \<and> (\<forall>i r given. i < length (w_handlers w') \<and> w_handlers w' ! i = At_check r
                   \<and> body r = Object given \<and> thread_start_fails r = None \<longrightarrow>
                 web_run env st db default_file w' [Handler i, Handler i, Handler i, Handler i] =
                   Some (w'\<lparr>w_status := fresh_status, w_handlers := drop_at i (w_handlers w'),
                           w_runs := w_runs w' @ [At_begin (get_or given default_file)],
                           w_log := w_log w' @ [Responded True ''Triage process started'']\<rparr>))))
   \<and> (\<forall>j f. j < length (w_runs w) \<and> w_runs w ! j = At_begin f \<longrightarrow>
        (\<exists>w'. web_run env st db default_file w [Run j, Run j, Run j] = Some w'
           \<and> (w_status w', w_store w') = run_triage_background env st db (w_store w) f (w_status w)
           \<and> w_runs w' = drop_at j (w_runs w)))
   \<and> \<not> is_running (fst (run_triage_background env st db h patient_file status))
   \<and> (body req = Object given \<and> thread_start_fails req = None \<longrightarrow>
        start_triage default_file (fst (run_triage_background env st db h patient_file status)) req =
          (Responded True ''Triage process started'', fresh_status, Some (get_or given default_file)))"
proof (intro conjI allI impI)
  assume "is_running status"
  then show "start_triage default_file status req =
        (Responded False ''Triage already running'', status, None)"
    by (rule start_triage_rejects)
next
  fix i
  assume "i < length (w_handlers w) \<and> w_handlers w ! i = At_check req \<and> is_running (w_status w)"
  then have "i < length (w_handlers w)" "w_handlers w ! i = At_check req" "is_running (w_status w)"
    by simp_all
  then show "web_step env st db default_file w (Handler i) =
          Some (w\<lparr>w_handlers := drop_at i (w_handlers w),
                  w_log := w_log w @ [Responded False ''Triage already running'']\<rparr>)"
    by (rule handler_check_set)
next
  fix j f
  assume "j < length (w_runs w) \<and> w_runs w ! j = At_begin f"
  then have a: "j < length (w_runs w)" "w_runs w ! j = At_begin f" by simp_all
  let ?w' = "w\<lparr>w_status := (w_status w)\<lparr>is_running := True, current_step := ''initializing''\<rparr>,
             w_runs := (w_runs w)[j := At_body f]\<rparr>"
  have "web_step env st db default_file w (Run j) = Some ?w'" using a by (rule run_begin)
  moreover have "is_running (w_status ?w') \<and> w_runs ?w' = (w_runs w)[j := At_body f]" by simp
  ultimately show "\<exists>w'. web_step env st db default_file w (Run j) = Some w'
           \<and> is_running (w_status w') \<and> w_runs w' = (w_runs w)[j := At_body f]" by blast
next
  fix j f
  assume "j < length (w_runs w) \<and> w_runs w ! j = At_body f"
  then have "j < length (w_runs w)" "w_runs w ! j = At_body f" by simp_all
  then show "\<exists>w'. web_step env st db default_file w (Run j) = Some w'
           \<and> is_running (w_status w') = is_running (w_status w)
           \<and> w_runs w' = (w_runs w)[j := At_finally]"
    by (rule run_body_keeps_flag)
next
  fix j
  assume "j < length (w_runs w) \<and> w_runs w ! j = At_finally"
  then have a: "j < length (w_runs w)" "w_runs w ! j = At_finally" by simp_all
  let ?w' = "w\<lparr>w_status := (w_status w)\<lparr>is_running := False\<rparr>, w_runs := drop_at j (w_runs w)\<rparr>"
  have s: "web_step env st db default_file w (Run j) = Some ?w'" using a by (rule run_finally)
  have n: "\<not> is_running (w_status ?w')" by simp
  have c: "web_step env st db default_file ?w' (Handler i) =
                   Some (?w'\<lparr>w_handlers := (w_handlers ?w')[i := At_reset r]\<rparr>)"
    if "i < length (w_handlers ?w') \<and> w_handlers ?w' ! i = At_check r" for i r
  proof -
    from that have "i < length (w_handlers ?w')" "w_handlers ?w' ! i = At_check r" by blast+
    then show ?thesis using n by (rule handler_check_clear)
  qed
  have d: "web_run env st db default_file ?w' [Handler i, Handler i, Handler i, Handler i] =
                   Some (?w'\<lparr>w_status := fresh_status, w_handlers := drop_at i (w_handlers ?w'),
                           w_runs := w_runs ?w' @ [At_begin (get_or given default_file)],
                           w_log := w_log ?w' @ [Responded True ''Triage process started'']\<rparr>)"
    if "i < length (w_handlers ?w') \<and> w_handlers ?w' ! i = At_check r
                   \<and> body r = Object given \<and> thread_start_fails r = None" for i r given
  proof -
    from that have "i < length (w_handlers ?w')" "w_handlers ?w' ! i = At_check r"
      "body r = Object given" "thread_start_fails r = None" by blast+
    from accepted_request_starts_run [OF this(1,2) n this(3,4)] show ?thesis .
  qed
  have "\<not> is_running (w_status ?w') \<and> w_runs ?w' = drop_at j (w_runs w)
      \<and> w_handlers ?w' = w_handlers w" by simp
  with s c d show "\<exists>w'. web_step env st db default_file w (Run j) = Some w'
           \<and> \<not> is_running (w_status w') \<and> w_runs w' = drop_at j (w_runs w)
           \<and> w_handlers w' = w_handlers w
           \<and> (\<forall>i r. i < length (w_handlers w') \<and> w_handlers w' ! i = At_check r \<longrightarrow>
                 web_step env st db default_file w' (Handler i) =
                   Some (w'\<lparr>w_handlers := (w_handlers w')[i := At_reset r]\<rparr>))
           \<and> (\<forall>i r given. i < length (w_handlers w') \<and> w_handlers w' ! i = At_check r
                   \<and> body r = Object given \<and> thread_start_fails r = None \<longrightarrow>
                 web_run env st db default_file w' [Handler i, Handler i, Handler i, Handler i] =
                   Some (w'\<lparr>w_status := fresh_status, w_handlers := drop_at i (w_handlers w'),
                           w_runs := w_runs w' @ [At_begin (get_or given default_file)],
                           w_log := w_log w' @ [Responded True ''Triage process started'']\<rparr>))"
    by blast
next
  fix j f
  assume "j < length (w_runs w) \<and> w_runs w ! j = At_begin f"
  then have "j < length (w_runs w)" "w_runs w ! j = At_begin f" by simp_all
  then show "\<exists>w'. web_run env st db default_file w [Run j, Run j, Run j] = Some w'
           \<and> (w_status w', w_store w') = run_triage_background env st db (w_store w) f (w_status w)
           \<and> w_runs w' = drop_at j (w_runs w)"
    by (rule run_in_isolation)
next
  show "\<not> is_running (fst (run_triage_background env st db h patient_file status))"
    by (simp add: run_triage_background_clears)
next
  assume "body req = Object given \<and> thread_start_fails req = None"
  then have "body req = Object given" "thread_start_fails req = None" by simp_all
  with run_triage_background_clears [of env st db h patient_file status]
  show "start_triage default_file (fst (run_triage_background env st db h patient_file status)) req =
          (Responded True ''Triage process started'', fresh_status, Some (get_or given default_file))"
    by (simp add: start_triage_accepts)
qed

text \<open>
  What the model also does, as the program can. Two requests that both pass the check
  before either sets the flag are both accepted, and two runs exist. A request whose body
  does not parse has already set the flag: it starts no run, and the next request is
  rejected.
\<close>

lemma racing_requests_both_accepted:
  "web_run quiet_env urgency_fails scenario_db ''patients.json'' (idle_web [scenario_doctor])
     [Arrive plain_request, Arrive plain_request, Handler 0, Handler 1,
      Handler 0, Handler 0, Handler 0, Handler 0, Handler 0, Handler 0]
   = Some \<lparr>w_status = fresh_status, w_store = [scenario_doctor], w_handlers = [],
           w_runs = [At_begin ''patients.json'', At_begin ''patients.json''],
           w_log = [Responded True ''Triage process started'',
                    Responded True ''Triage process started'']\<rparr>"
  by (simp add: web_step_def handler_step_def idle_web_def plain_request_def drop_at_def
      get_or_def fresh_status_def)

lemma unparsed_request_leaves_flag_set:
  "start_triage ''patients.json'' (w_status (idle_web [scenario_doctor])) broken_request
     = (Raised ''400 Bad Request'', fresh_status, None)
   \<and> start_triage ''patients.json'' fresh_status plain_request
     = (Responded False ''Triage already running'', fresh_status, None)"
  by (simp add: start_triage_def idle_web_def broken_request_def fresh_status_def)

lemma failing_run_outcome:
  "run_triage_background quiet_env urgency_fails scenario_db [scenario_doctor] ''patients.json''
      fresh_status
   = (\<lparr>is_running = False, total_patients = 2, current_step = ''error'', results = []\<rparr>,
      [scenario_doctor])"
  by (simp add: run_triage_background_def try_block_def try_rest_def quiet_env_def urgency_fails_def
      fresh_status_def)

theorem single_run_and_clean_exit_witness:
  "start_triage ''patients.json'' fresh_status plain_request
     = (Responded False ''Triage already running'', fresh_status, None)
   \<and> web_step quiet_env urgency_fails scenario_db ''patients.json''
        \<lparr>w_status = fresh_status, w_store = [scenario_doctor], w_handlers = [At_check plain_request],
         w_runs = [At_body ''patients.json''], w_log = []\<rparr> (Handler 0)
     = Some \<lparr>w_status = fresh_status, w_store = [scenario_doctor], w_handlers = [],
             w_runs = [At_body ''patients.json''],
             w_log = [Responded False ''Triage already running'']\<rparr>
   \<and> web_run quiet_env urgency_fails scenario_db ''patients.json''
        \<lparr>w_status = fresh_status, w_store = [scenario_doctor], w_handlers = [],
         w_runs = [At_begin ''patients.json''], w_log = []\<rparr> [Run 0, Run 0, Run 0]
     = Some \<lparr>w_status = \<lparr>is_running = False, total_patients = 2, current_step = ''error'',
                           results = []\<rparr>,
             w_store = [scenario_doctor], w_handlers = [], w_runs = [], w_log = []\<rparr>
   \<and> start_triage ''patients.json''
        (fst (run_triage_background quiet_env urgency_fails scenario_db [scenario_doctor]
                ''patients.json'' fresh_status)) plain_request
     = (Responded True ''Triage process started'', fresh_status, Some ''patients.json'')"
proof -
  let ?busy = "\<lparr>w_status = fresh_status, w_store = [scenario_doctor],
                  w_handlers = [At_check plain_request],
                  w_runs = [At_body ''patients.json''], w_log = []\<rparr>"
  let ?queued = "\<lparr>w_status = fresh_status, w_store = [scenario_doctor], w_handlers = [],
                    w_runs = [At_begin ''patients.json''], w_log = []\<rparr>"
  note t = single_run_and_clean_exit
    [of fresh_status "''patients.json''" plain_request ?busy quiet_env urgency_fails scenario_db
        "[scenario_doctor]" "''patients.json''" None]
  note u = single_run_and_clean_exit
    [of fresh_status "''patients.json''" plain_request ?queued quiet_env urgency_fails scenario_db
        "[scenario_doctor]" "''patients.json''" None]
  have f: "is_running fresh_status" by (simp add: fresh_status_def)
  from t f have a: "start_triage ''patients.json'' fresh_status plain_request
     = (Responded False ''Triage already running'', fresh_status, None)" by blast
  have "0 < length (w_handlers ?busy) \<and> w_handlers ?busy ! 0 = At_check plain_request
      \<and> is_running (w_status ?busy)" using f by simp
  with t have "web_step quiet_env urgency_fails scenario_db ''patients.json'' ?busy (Handler 0)
     = Some (?busy\<lparr>w_handlers := drop_at 0 (w_handlers ?busy),
                  w_log := w_log ?busy @ [Responded False ''Triage already running'']\<rparr>)"
    by blast
  then have b: "web_step quiet_env urgency_fails scenario_db ''patients.json'' ?busy (Handler 0)
     = Some \<lparr>w_status = fresh_status, w_store = [scenario_doctor], w_handlers = [],
             w_runs = [At_body ''patients.json''],
             w_log = [Responded False ''Triage already running'']\<rparr>"
    by (simp add: drop_at_def)
  have "0 < length (w_runs ?queued) \<and> w_runs ?queued ! 0 = At_begin ''patients.json''" by simp
  with u obtain w' where w': "web_run quiet_env urgency_fails scenario_db ''patients.json'' ?queued
        [Run 0, Run 0, Run 0] = Some w'"
    "(w_status w', w_store w') = run_triage_background quiet_env urgency_fails scenario_db
        (w_store ?queued) ''patients.json'' (w_status ?queued)"
    by blast
  have c: "web_run quiet_env urgency_fails scenario_db ''patients.json'' ?queued [Run 0, Run 0, Run 0]
     = Some \<lparr>w_status = \<lparr>is_running = False, total_patients = 2, current_step = ''error'',
                           results = []\<rparr>,
             w_store = [scenario_doctor], w_handlers = [], w_runs = [], w_log = []\<rparr>"
    by (simp add: web_step_def run_step_def try_rest_def quiet_env_def urgency_fails_def
        fresh_status_def drop_at_def)
  have "body plain_request = Object None \<and> thread_start_fails plain_request = None"
    by (simp add: plain_request_def)
  with t have d: "start_triage ''patients.json''
        (fst (run_triage_background quiet_env urgency_fails scenario_db [scenario_doctor]
                ''patients.json'' fresh_status)) plain_request
     = (Responded True ''Triage process started'', fresh_status, Some (get_or None ''patients.json''))"
    by blast
  from a b c d show ?thesis by (simp add: get_or_def)
qed

end
